theory Spec2Isabelle
  imports Main
begin

section \<open>Values shared by the event processor and the partition pump\<close>

text \<open>
  \<^verbatim>\<open>enum CloseReason\<close> of eventProcessor.ts.
\<close>

datatype CloseReason = EventHubException | OwnershipLost | Shutdown

text \<open>
  Modelled from the spec: \<^verbatim>\<open>EventPosition\<close> (eventPosition.ts is not among the sources).
  The spec lists its values as earliest, latest, fromOffset(n), fromSequenceNumber(n) and
  fromEnqueuedTime(t). An \<^verbatim>\<open>EventPosition\<close> is an object, hence always truthy.
\<close>

datatype EventPosition =
    Earliest
  | Latest
  | FromOffset int
  | FromSequenceNumber int
  | FromEnqueuedTime int

text \<open>
  A value that a JavaScript \<^verbatim>\<open>catch (err)\<close> can bind. The receive loop inspects
  \<^verbatim>\<open>typeof err\<close>, \<^verbatim>\<open>err.retryable\<close> (by truthiness) and \<^verbatim>\<open>err.name\<close>:
  \<^item> \<open>JsNull\<close>: \<^verbatim>\<open>typeof null === "object"\<close>, and reading a property of it raises a TypeError;
  \<^item> \<open>JsUndefined\<close>: not an object, and reading a property of it raises a TypeError;
  \<^item> \<open>JsPrimitive\<close>: a string, number or boolean; not an object, its \<^verbatim>\<open>name\<close> is undefined;
  \<^item> \<open>JsObject n r\<close>: an object whose \<^verbatim>\<open>name\<close> is \<open>n\<close> and whose \<^verbatim>\<open>retryable\<close> is
    truthy exactly when \<open>r\<close> holds (an \<^verbatim>\<open>Error\<close>, a \<^verbatim>\<open>MessagingError\<close>).
\<close>

datatype thrown =
    JsNull
  | JsUndefined
  | JsPrimitive
  | JsObject string bool

definition TypeError :: thrown where
  "TypeError = JsObject ''TypeError'' False"

text \<open>
  The settled value of an awaited promise is \<open>Inr v\<close> when it resolved with \<open>v\<close> and
  \<open>Inl err\<close> when it rejected with \<open>err\<close>; the same for a synchronous call that may throw.
\<close>

type_synonym 'a settled = "thrown + 'a"

text \<open>Only the sequence number of a \<^verbatim>\<open>ReceivedEventData\<close> is kept.\<close>

type_synonym ReceivedEventData = int

record EventProcessorOptions =
  initialEventPosition :: "EventPosition option"
  maxBatchSize :: "int option"
  maxWaitTimeInSeconds :: "int option"

record PartitionContext =
  pc_consumerGroupName :: string
  pc_eventHubName :: string
  pc_partitionId :: string

text \<open>
  \<^verbatim>\<open>interface PartitionProcessor\<close>: the handler object returned by the user's factory.
  \<^verbatim>\<open>initialize\<close> and \<^verbatim>\<open>close\<close> are optional; the two flags say whether
  \<^verbatim>\<open>typeof handler.initialize === "function"\<close> and likewise for \<^verbatim>\<open>close\<close>. What the
  handler's methods do when called is an input of the functions below.
\<close>

record PartitionProcessor =
  hasInitialize :: bool
  hasClose :: bool

section \<open>PartitionPump\<close>

text \<open>
  Every call the pump makes to a collaborator (the user's handler, the broker client, the
  consumer, its abort controller, the error log) is appended to \<open>calls\<close>, oldest first.
\<close>

datatype call =
    Initialize
  | CreateConsumer string string EventPosition int
  | ReceiveBatch int "int option"
  | ProcessEvents "ReceivedEventData list"
  | ProcessError thrown
  | ReceiverClose
  | Abort
  | Close CloseReason
  | LogProcessErrorThrew thrown
  | LogStopFailedInLoop thrown
  | LogCloseFailed thrown

text \<open>
  \<^verbatim>\<open>class PartitionPump\<close>. \<open>receiver\<close> is \<^verbatim>\<open>_receiver\<close>: \<open>None\<close> while undefined, else
  the position the consumer was created at. \<open>aborted\<close> is \<^verbatim>\<open>_abortController.signal.aborted\<close>.
\<close>

record PartitionPump =
  partitionContext :: PartitionContext
  partitionProcessor :: PartitionProcessor
  processorOptions :: EventProcessorOptions
  receiver :: "EventPosition option"
  isReceiving :: bool
  aborted :: bool
  calls :: "call list"

definition called :: "call \<Rightarrow> PartitionPump \<Rightarrow> PartitionPump" where
  "called c p = p\<lparr>calls := calls p @ [c]\<rparr>"

text \<open>The constructor: \<^verbatim>\<open>if (!options) options = {}\<close> is the \<open>None\<close> case.\<close>

definition emptyOptions :: EventProcessorOptions where
  "emptyOptions = \<lparr>initialEventPosition = None, maxBatchSize = None, maxWaitTimeInSeconds = None\<rparr>"

definition newPartitionPump ::
  "PartitionContext \<Rightarrow> PartitionProcessor \<Rightarrow> EventProcessorOptions option \<Rightarrow> PartitionPump" where
  "newPartitionPump ctx processor options =
     \<lparr>partitionContext = ctx,
      partitionProcessor = processor,
      processorOptions = (case options of None \<Rightarrow> emptyOptions | Some opts \<Rightarrow> opts),
      receiver = None,
      isReceiving = False,
      aborted = False,
      calls = []\<rparr>"

subsection \<open>stop\<close>

text \<open>
  What the collaborators answer during one \<^verbatim>\<open>stop\<close>: how \<^verbatim>\<open>_receiver.close()\<close> and the
  handler's \<^verbatim>\<open>close(reason)\<close> settle (each is consulted only if the call is made).
\<close>

record stop_env =
  receiverCloseResult :: "unit settled"
  userCloseResult :: "unit settled"

text \<open>
  \<^verbatim>\<open>async stop(reason)\<close>. The flag is cleared first; inside the \<^verbatim>\<open>try\<close> the consumer is
  closed if there is one, the controller aborted, the handler's \<^verbatim>\<open>close\<close> called if it is a
  function. The \<^verbatim>\<open>catch\<close> logs and throws again, so \<open>Inl err\<close> is the rejection of the
  returned promise.
\<close>

definition PartitionPump_stop ::
  "CloseReason \<Rightarrow> stop_env \<Rightarrow> PartitionPump \<Rightarrow> unit settled \<times> PartitionPump" where
  "PartitionPump_stop reason env p =
     (let p1 = p\<lparr>isReceiving := False\<rparr> in
      case (if receiver p1 \<noteq> None then (receiverCloseResult env, called ReceiverClose p1)
            else (Inr (), p1)) of
        (Inl err, p2) \<Rightarrow> (Inl err, called (LogCloseFailed err) p2)
      | (Inr _, p2) \<Rightarrow>
          (let p3 = (called Abort p2)\<lparr>aborted := True\<rparr> in
           if hasClose (partitionProcessor p3) then
             (case userCloseResult env of
                Inl err \<Rightarrow> (Inl err, called (LogCloseFailed err) (called (Close reason) p3))
              | Inr _ \<Rightarrow> (Inr (), called (Close reason) p3))
           else (Inr (), p3)))"

subsection \<open>The receive loop\<close>

text \<open>
  What happens around one pass of the \<^verbatim>\<open>while\<close> body: whether the supervisor ran
  \<^verbatim>\<open>stop(reason)\<close> on this pump while \<^verbatim>\<open>receiveBatch\<close> or \<^verbatim>\<open>processEvents\<close> was
  awaited, how \<^verbatim>\<open>receiveBatch\<close>, \<^verbatim>\<open>processEvents\<close> and \<^verbatim>\<open>processError\<close> settle, and
  what the collaborators answer if the loop itself calls \<^verbatim>\<open>stop\<close>.
\<close>

record iteration =
  stopDuringReceive :: "(CloseReason \<times> stop_env) option"
  received :: "ReceivedEventData list settled"
  stopDuringProcessEvents :: "(CloseReason \<times> stop_env) option"
  processEventsResult :: "unit settled"
  processErrorResult :: "unit settled"
  stopEnv :: stop_env

definition stoppedMeanwhile ::
  "(CloseReason \<times> stop_env) option \<Rightarrow> PartitionPump \<Rightarrow> PartitionPump" where
  "stoppedMeanwhile s p =
     (case s of None \<Rightarrow> p | Some (reason, env) \<Rightarrow> snd (PartitionPump_stop reason env p))"

text \<open>How one pass of the loop body ends.\<close>

datatype pass_end = Continue | Return | Throw thrown

text \<open>
  \<^verbatim>\<open>return await this.stop(reason)\<close> inside the inner \<^verbatim>\<open>try\<close>: a resolved stop returns
  from the function; a rejected one is caught and logged, and control falls out of the
  \<^verbatim>\<open>catch\<close> block to the loop condition.
\<close>

definition stopFromLoop ::
  "CloseReason \<Rightarrow> stop_env \<Rightarrow> PartitionPump \<Rightarrow> pass_end \<times> PartitionPump" where
  "stopFromLoop reason env p =
     (case PartitionPump_stop reason env p of
        (Inr _, p') \<Rightarrow> (Return, p')
      | (Inl err, p') \<Rightarrow> (Continue, called (LogStopFailedInLoop err) p'))"

text \<open>
  The \<^verbatim>\<open>catch (err)\<close> block of the loop body. The error goes to the handler's
  \<^verbatim>\<open>processError\<close>, whose own exception is logged and dropped. Then the test
  \<^verbatim>\<open>typeof err !== "object" || !err.retryable\<close> comes first; the name of the error is
  looked at only inside it. For \<^verbatim>\<open>null\<close> that test raises outside the inner
  \<^verbatim>\<open>try\<close>; for \<^verbatim>\<open>undefined\<close> reading \<^verbatim>\<open>err.name\<close> raises inside it.
\<close>

definition forwardError :: "iteration \<Rightarrow> thrown \<Rightarrow> PartitionPump \<Rightarrow> PartitionPump" where
  "forwardError it err p =
     (let p1 = called (ProcessError err) p
      in case processErrorResult it of
           Inl err' \<Rightarrow> called (LogProcessErrorThrew err') p1
         | Inr _ \<Rightarrow> p1)"

definition catchBlock :: "iteration \<Rightarrow> thrown \<Rightarrow> PartitionPump \<Rightarrow> pass_end \<times> PartitionPump" where
  "catchBlock it err p =
     (if \<not> isReceiving p then (Return, p)
      else
        (let p2 = forwardError it err p
         in case err of
              JsNull \<Rightarrow> (Throw TypeError, p2)
            | JsUndefined \<Rightarrow> (Continue, called (LogStopFailedInLoop TypeError) p2)
            | JsPrimitive \<Rightarrow> stopFromLoop EventHubException (stopEnv it) p2
            | JsObject n r \<Rightarrow>
                if r then (Continue, p2)
                else if n = ''ReceiverDisconnectedError''
                  then stopFromLoop OwnershipLost (stopEnv it) p2
                  else stopFromLoop EventHubException (stopEnv it) p2))"

text \<open>\<^verbatim>\<open>this._processorOptions.maxBatchSize || 1\<close>: zero is falsy.\<close>

definition batchSize :: "EventProcessorOptions \<Rightarrow> int" where
  "batchSize opts = (case maxBatchSize opts of None \<Rightarrow> 1 | Some n \<Rightarrow> if n = 0 then 1 else n)"

text \<open>One pass of the \<^verbatim>\<open>while\<close> body: the \<^verbatim>\<open>try\<close> block, then the \<^verbatim>\<open>catch\<close>.\<close>

definition loopBody :: "iteration \<Rightarrow> PartitionPump \<Rightarrow> pass_end \<times> PartitionPump" where
  "loopBody it p =
     (let p1 = called (ReceiveBatch (batchSize (processorOptions p))
                         (maxWaitTimeInSeconds (processorOptions p))) p;
          p2 = stoppedMeanwhile (stopDuringReceive it) p1
      in case received it of
           Inl err \<Rightarrow> catchBlock it err p2
         | Inr events \<Rightarrow>
             if \<not> isReceiving p2 then (Return, p2)
             else
               (let p3 = stoppedMeanwhile (stopDuringProcessEvents it)
                           (called (ProcessEvents events) p2)
                in case processEventsResult it of
                     Inl err \<Rightarrow> catchBlock it err p3
                   | Inr _ \<Rightarrow> (Continue, p3)))"

text \<open>
  Where the loop stands once the given passes are used up: still inside the loop, about
  to await the next \<^verbatim>\<open>receiveBatch\<close>; returned; or left by an exception, which rejects the
  promise of \<^verbatim>\<open>_receiveEvents\<close>.
\<close>

datatype loop_status = AwaitingReceive | Returned | Rejected thrown

fun receiveLoop :: "iteration list \<Rightarrow> PartitionPump \<Rightarrow> loop_status \<times> PartitionPump" where
  "receiveLoop [] p = (if isReceiving p then (AwaitingReceive, p) else (Returned, p))"
| "receiveLoop (it # rest) p =
     (if \<not> isReceiving p then (Returned, p)
      else case loopBody it p of
             (Continue, p') \<Rightarrow> receiveLoop rest p'
           | (Return, p') \<Rightarrow> (Returned, p')
           | (Throw err, p') \<Rightarrow> (Rejected err, p'))"

text \<open>
  What the collaborators answer over the life of one pump: how \<^verbatim>\<open>initialize()\<close> settles,
  whether \<^verbatim>\<open>createConsumer\<close> throws, and the passes of the receive loop.
\<close>

record pump_env =
  initializeResult :: "unit settled"
  createConsumerResult :: "unit settled"
  iterations :: "iteration list"

text \<open>\<^verbatim>\<open>this._processorOptions.initialEventPosition || EventPosition.earliest()\<close>.\<close>

definition startPosition :: "EventProcessorOptions \<Rightarrow> EventPosition" where
  "startPosition opts = (case initialEventPosition opts of None \<Rightarrow> Earliest | Some pos \<Rightarrow> pos)"

text \<open>
  \<^verbatim>\<open>private async _receiveEvents(partitionId)\<close>: an exception of \<^verbatim>\<open>createConsumer\<close>
  rejects the promise before the loop is entered.
\<close>

definition receiveEvents ::
  "string \<Rightarrow> pump_env \<Rightarrow> PartitionPump \<Rightarrow> loop_status \<times> PartitionPump" where
  "receiveEvents partitionId env p =
     (let pos = startPosition (processorOptions p);
          p1 = called (CreateConsumer (pc_consumerGroupName (partitionContext p)) partitionId pos 0) p
      in case createConsumerResult env of
           Inl err \<Rightarrow> (Rejected err, p1)
         | Inr _ \<Rightarrow> receiveLoop (iterations env) (p1\<lparr>receiver := Some pos\<rparr>))"

subsection \<open>start\<close>

text \<open>
  \<^verbatim>\<open>async start()\<close>. The result has the settled value of the promise that \<^verbatim>\<open>start\<close>
  returns, then where the receive loop it launched stands and the pump it leaves. The
  \<^verbatim>\<open>catch\<close> around \<^verbatim>\<open>initialize()\<close> is empty, so \<open>initializeResult\<close> changes
  nothing. The call \<^verbatim>\<open>this._receiveEvents(...)\<close> is not awaited and its promise is
  dropped.
\<close>

definition PartitionPump_start ::
  "pump_env \<Rightarrow> PartitionPump \<Rightarrow> unit settled \<times> loop_status \<times> PartitionPump" where
  "PartitionPump_start env p =
     (let p1 = p\<lparr>isReceiving := True\<rparr>;
          p2 = (if hasInitialize (partitionProcessor p1) then called Initialize p1 else p1);
          launched = receiveEvents (pc_partitionId (partitionContext p2)) env p2
      in (Inr (), launched))"

section \<open>PumpManager\<close>

text \<open>
  Modelled from the spec: \<^verbatim>\<open>PumpManager\<close> (pumpManager.ts is not among the sources).
  The spec calls it an indexed collection of active pumps, with at most one live pump per
  partition id. It is built by \<^verbatim>\<open>new PumpManager(this._id, options)\<close>. \<open>pumps\<close>
  is the index; \<open>removed\<close> keeps the pumps that were stopped and taken out of it, so
  that what was done to them stays visible.
\<close>

record PumpManager =
  pm_eventProcessorName :: string
  pm_options :: EventProcessorOptions
  pumps :: "(string \<times> PartitionPump) list"
  removed :: "(string \<times> PartitionPump) list"

definition newPumpManager :: "string \<Rightarrow> EventProcessorOptions \<Rightarrow> PumpManager" where
  "newPumpManager eventProcessorName options =
     \<lparr>pm_eventProcessorName = eventProcessorName, pm_options = options, pumps = [], removed = []\<rparr>"

text \<open>
  What the collaborators answer during one \<^verbatim>\<open>createPump\<close>: to the stop of a pump
  already there for the partition, and over the life of the new pump.
\<close>

record createPump_env =
  oldPumpStop :: stop_env
  newPumpEnv :: pump_env

text \<open>
  Modelled from the spec: \<^verbatim>\<open>PumpManager.createPump\<close>, which "constructs a pump, starts
  it, stores it under partitionId. If a pump already exists for that partition, the new
  one replaces it only after the old one's stop(Shutdown) completes." The constructor of
  \<^verbatim>\<open>PartitionPump\<close> takes no start position of its own: the pump reads
  \<^verbatim>\<open>initialEventPosition\<close> from the options it is given, so the position handed to
  \<^verbatim>\<open>createPump\<close> reaches it in that field.
\<close>

definition createPump ::
  "createPump_env \<Rightarrow> PartitionContext \<Rightarrow> EventPosition \<Rightarrow> PartitionProcessor \<Rightarrow>
   PumpManager \<Rightarrow> PumpManager" where
  "createPump env ctx position processor pm =
     (let pid = pc_partitionId ctx;
          old = filter (\<lambda>(k, p). k = pid) (pumps pm);
          others = filter (\<lambda>(k, p). k \<noteq> pid) (pumps pm);
          stoppedOld = map (\<lambda>(k, p). (k, snd (PartitionPump_stop Shutdown (oldPumpStop env) p))) old;
          pump = newPartitionPump ctx processor
                   (Some ((pm_options pm)\<lparr>initialEventPosition := Some position\<rparr>));
          started = snd (snd (PartitionPump_start (newPumpEnv env) pump))
      in pm\<lparr>pumps := others @ [(pid, started)], removed := removed pm @ stoppedOld\<rparr>)"

text \<open>
  Modelled from the spec: \<^verbatim>\<open>PumpManager.removeAllPumps(reason)\<close>, which "stops all in
  parallel; returns when all are closed". \<open>env\<close> gives, for each partition id, what the
  collaborators answer to the stop of its pump.
\<close>

definition removeAllPumps ::
  "CloseReason \<Rightarrow> (string \<Rightarrow> stop_env) \<Rightarrow> PumpManager \<Rightarrow> PumpManager" where
  "removeAllPumps reason env pm =
     pm\<lparr>pumps := [],
        removed := removed pm @
          map (\<lambda>(k, p). (k, snd (PartitionPump_stop reason (env k) p))) (pumps pm)\<rparr>"

section \<open>EventProcessor\<close>

text \<open>\<^verbatim>\<open>interface PartitionOwnership\<close>; an optional field is \<open>None\<close> when undefined.\<close>

record PartitionOwnership =
  eventHubName :: string
  consumerGroupName :: string
  ownerId :: string
  partitionId :: string
  ownerLevel :: int
  offset :: "int option"
  sequenceNumber :: "int option"
  lastModifiedTimeInMS :: "int option"
  eTag :: "string option"

text \<open>
  The calls of the event processor to its collaborators (the partition manager, the
  client, the user's factory, the pump manager, the load balancer, the delay, its abort
  controller, the logs), oldest first. \<open>RunLoop i\<close> is the launch of the control loop
  with signal \<open>i\<close>, \<open>AwaitLoopTask i\<close> the await of that loop's promise.
\<close>

datatype ep_call =
    LogAttemptClaim string
  | ClaimOwnership PartitionOwnership
  | LogClaimed string
  | LogCallingFactory string
  | Factory PartitionContext
  | CreatePump PartitionContext EventPosition
  | LogPumpCreated
  | LogClaimFailed string
  | ListOwnership
  | GetPartitionIds
  | LoadBalance "string list"
  | LogPausing
  | Delay int
  | LogLoopError thrown
  | LogAlreadyRunning
  | LogStarting
  | RunLoop nat
  | LogStopping
  | AbortCall nat
  | RemoveAllPumps CloseReason
  | AwaitLoopTask nat
  | LogStopError thrown
  | LogStopped

text \<open>
  \<^verbatim>\<open>class EventProcessor\<close>. Every \<^verbatim>\<open>start\<close> makes a new \<^verbatim>\<open>AbortController\<close>, while
  a loop launched earlier keeps the signal it was given: \<open>signals\<close> holds the
  \<^verbatim>\<open>aborted\<close> flag of every signal made so far, \<open>abortController\<close> is the index of the
  current one and \<open>loopTask\<close> names the loop last launched by the index of its signal
  (both \<open>None\<close> while undefined).
\<close>

record EventProcessor =
  ep_consumerGroupName :: string
  ep_eventHubName :: string
  ep_processorOptions :: EventProcessorOptions
  pumpManager :: PumpManager
  ep_id :: string
  isRunning :: bool
  loopTask :: "nat option"
  abortController :: "nat option"
  signals :: "bool list"
  ep_calls :: "ep_call list"

definition noted :: "ep_call \<Rightarrow> EventProcessor \<Rightarrow> EventProcessor" where
  "noted c ep = ep\<lparr>ep_calls := ep_calls ep @ [c]\<rparr>"

text \<open>The constructor; \<open>uuid\<close> is the value of \<^verbatim>\<open>uuid()\<close>.\<close>

definition newEventProcessor ::
  "string \<Rightarrow> string \<Rightarrow> EventProcessorOptions option \<Rightarrow> string \<Rightarrow> EventProcessor" where
  "newEventProcessor consumerGroup eventHub options uuid =
     (let opts = (case options of None \<Rightarrow> emptyOptions | Some given \<Rightarrow> given)
      in \<lparr>ep_consumerGroupName = consumerGroup,
          ep_eventHubName = eventHub,
          ep_processorOptions = opts,
          pumpManager = newPumpManager uuid opts,
          ep_id = uuid,
          isRunning = False,
          loopTask = None,
          abortController = None,
          signals = [],
          ep_calls = []\<rparr>)"

definition signalAborted :: "nat \<Rightarrow> EventProcessor \<Rightarrow> bool" where
  "signalAborted i ep = (i < length (signals ep) \<and> signals ep ! i)"

definition abortSignal :: "nat \<Rightarrow> EventProcessor \<Rightarrow> EventProcessor" where
  "abortSignal i ep = ep\<lparr>signals := (signals ep)[i := True]\<rparr>"

subsection \<open>The claim procedure\<close>

text \<open>
  \<^verbatim>\<open>_createPartitionOwnershipRequest\<close>; the map is the \<^verbatim>\<open>Map\<close> built by the loop, and
  a record in it is an object, hence truthy.
\<close>

definition createPartitionOwnershipRequest ::
  "EventProcessor \<Rightarrow> (string \<rightharpoonup> PartitionOwnership) \<Rightarrow> string \<Rightarrow> PartitionOwnership" where
  "createPartitionOwnershipRequest ep partitionOwnershipMap partitionIdToClaim =
     (let previousPartitionOwnership = partitionOwnershipMap partitionIdToClaim
      in \<lparr>eventHubName = ep_eventHubName ep,
          consumerGroupName = ep_consumerGroupName ep,
          ownerId = ep_id ep,
          partitionId = partitionIdToClaim,
          ownerLevel = 0,
          offset = (case previousPartitionOwnership of None \<Rightarrow> None | Some prev \<Rightarrow> offset prev),
          sequenceNumber =
            (case previousPartitionOwnership of None \<Rightarrow> None | Some prev \<Rightarrow> sequenceNumber prev),
          lastModifiedTimeInMS = None,
          eTag = (case previousPartitionOwnership of None \<Rightarrow> None | Some prev \<Rightarrow> eTag prev)\<rparr>)"

text \<open>
  The start position chosen in \<^verbatim>\<open>_claimOwnership\<close>:
  \<^verbatim>\<open>ownershipRequest.sequenceNumber ? EventPosition.fromSequenceNumber(...) :
  this._processorOptions.initialEventPosition || EventPosition.earliest()\<close>.
  The condition is the truthiness of a number: undefined and zero are both falsy.
\<close>

definition eventPositionFor :: "EventProcessorOptions \<Rightarrow> PartitionOwnership \<Rightarrow> EventPosition" where
  "eventPositionFor opts ownershipRequest =
     (case sequenceNumber ownershipRequest of
        None \<Rightarrow> startPosition opts
      | Some n \<Rightarrow> if n \<noteq> 0 then FromSequenceNumber n else startPosition opts)"

text \<open>
  What the collaborators answer during one \<^verbatim>\<open>_claimOwnership\<close>: how
  \<^verbatim>\<open>claimOwnership([request])\<close> settles, what the user's factory returns or throws, what
  happens inside \<^verbatim>\<open>createPump\<close>, and how the promise of \<^verbatim>\<open>createPump\<close> settles (the spec
  does not say whether it can reject).
\<close>

record claim_env =
  claimOwnershipResult :: "PartitionOwnership list settled"
  factoryResult :: "PartitionProcessor settled"
  createPumpEnv :: createPump_env
  createPumpResult :: "unit settled"

text \<open>
  \<^verbatim>\<open>private async _claimOwnership(partitionOwnershipMap, partitionIdToClaim)\<close>. The
  value that \<^verbatim>\<open>claimOwnership\<close> resolves with is not bound to anything. Whatever is thrown
  inside the \<^verbatim>\<open>try\<close> ends in the one \<^verbatim>\<open>catch\<close>, which logs. Building the
  \<^verbatim>\<open>CheckpointManager\<close> calls no collaborator.
\<close>

definition EventProcessor_claimOwnership ::
  "claim_env \<Rightarrow> (string \<rightharpoonup> PartitionOwnership) \<Rightarrow> string \<Rightarrow> EventProcessor \<Rightarrow> EventProcessor" where
  "EventProcessor_claimOwnership env partitionOwnershipMap partitionIdToClaim ep =
     (let ownershipRequest =
            createPartitionOwnershipRequest ep partitionOwnershipMap partitionIdToClaim;
          ep1 = noted (ClaimOwnership ownershipRequest) (noted (LogAttemptClaim partitionIdToClaim) ep)
      in case claimOwnershipResult env of
           Inl err \<Rightarrow> noted (LogClaimFailed (partitionId ownershipRequest)) ep1
         | Inr claimed \<Rightarrow>
             (let ctx = \<lparr>pc_consumerGroupName = ep_consumerGroupName ep,
                         pc_eventHubName = ep_eventHubName ep,
                         pc_partitionId = partitionId ownershipRequest\<rparr>;
                  ep2 = noted (Factory ctx)
                          (noted (LogCallingFactory partitionIdToClaim)
                             (noted (LogClaimed partitionIdToClaim) ep1))
              in case factoryResult env of
                   Inl err \<Rightarrow> noted (LogClaimFailed (partitionId ownershipRequest)) ep2
                 | Inr processor \<Rightarrow>
                     (let eventPosition = eventPositionFor (ep_processorOptions ep) ownershipRequest;
                          ep3 = (noted (CreatePump ctx eventPosition) ep2)
                                  \<lparr>pumpManager :=
                                     createPump (createPumpEnv env) ctx eventPosition
                                       processor (pumpManager ep2)\<rparr>
                      in case createPumpResult env of
                           Inl err \<Rightarrow> noted (LogClaimFailed (partitionId ownershipRequest)) ep3
                         | Inr _ \<Rightarrow> noted LogPumpCreated ep3)))"

subsection \<open>The control loop\<close>

text \<open>
  What happens around one pass of the \<^verbatim>\<open>while\<close> body of \<^verbatim>\<open>_runLoop\<close>: how
  \<^verbatim>\<open>listOwnership\<close> and \<^verbatim>\<open>getPartitionIds\<close> settle, whether \<^verbatim>\<open>stop()\<close> aborted the
  loop's signal while they were awaited, what the load balancer answers (partitionLoadBalancer.ts
  is not among the sources, so its answer is an input), what happens in the claim, how
  \<^verbatim>\<open>delay\<close> settles, and whether the signal was aborted during the claim or the delay.
\<close>

record tick =
  listOwnershipResult :: "PartitionOwnership list settled"
  getPartitionIdsResult :: "string list settled"
  abortedWhileFetching :: bool
  loadBalanceResult :: "string option settled"
  claimEnv :: claim_env
  delayResult :: "unit settled"
  abortedLater :: bool

definition fired :: "bool \<Rightarrow> nat \<Rightarrow> EventProcessor \<Rightarrow> EventProcessor" where
  "fired b i ep = (if b then abortSignal i ep else ep)"

text \<open>
  The \<^verbatim>\<open>for\<close> loop that fills the \<^verbatim>\<open>Map\<close>: a later record for the same partition
  replaces an earlier one.
\<close>

definition ownershipMapOf :: "PartitionOwnership list \<Rightarrow> (string \<rightharpoonup> PartitionOwnership)" where
  "ownershipMapOf ownerships = foldl (\<lambda>m ownership. m(partitionId ownership \<mapsto> ownership)) Map.empty ownerships"

text \<open>
  \<^verbatim>\<open>if (partitionIds.length > 0) { ... if (partitionToClaim) { await this._claimOwnership(...) } }\<close>;
  the empty string is falsy. \<open>Inl err\<close> is an exception of the load balancer.
\<close>

definition balanceAndClaim ::
  "tick \<Rightarrow> (string \<rightharpoonup> PartitionOwnership) \<Rightarrow> string list \<Rightarrow> EventProcessor \<Rightarrow>
   unit settled \<times> EventProcessor" where
  "balanceAndClaim t partitionOwnershipMap partitionIds ep =
     (if length partitionIds > 0 then
        (let ep1 = noted (LoadBalance partitionIds) ep
         in case loadBalanceResult t of
              Inl err \<Rightarrow> (Inl err, ep1)
            | Inr None \<Rightarrow> (Inr (), ep1)
            | Inr (Some partitionToClaim) \<Rightarrow>
                if partitionToClaim \<noteq> []
                then (Inr (), EventProcessor_claimOwnership (claimEnv t) partitionOwnershipMap
                                partitionToClaim ep1)
                else (Inr (), ep1))
      else (Inr (), ep))"

text \<open>How one pass of the loop body ends: by the \<^verbatim>\<open>return\<close>, or at the end of the
  \<^verbatim>\<open>try\<close> or of the \<^verbatim>\<open>catch\<close>, from where the loop condition is tested again.\<close>

datatype tick_end = TickReturn | TickDone

definition tickBody :: "nat \<Rightarrow> tick \<Rightarrow> EventProcessor \<Rightarrow> tick_end \<times> EventProcessor" where
  "tickBody i t ep =
     (let ep1 = fired (abortedWhileFetching t) i (noted ListOwnership ep)
      in case listOwnershipResult t of
           Inl err \<Rightarrow> (TickDone, noted (LogLoopError err) ep1)
         | Inr partitionOwnership \<Rightarrow>
             (let ep2 = noted GetPartitionIds ep1
              in case getPartitionIdsResult t of
                   Inl err \<Rightarrow> (TickDone, noted (LogLoopError err) ep2)
                 | Inr partitionIds \<Rightarrow>
                     if signalAborted i ep2 then (TickReturn, ep2)
                     else
                       (case balanceAndClaim t (ownershipMapOf partitionOwnership) partitionIds ep2 of
                          (Inl err, ep3) \<Rightarrow> (TickDone, noted (LogLoopError err) ep3)
                        | (Inr _, ep3) \<Rightarrow>
                            (let ep4 = fired (abortedLater t) i (noted (Delay 10000) (noted LogPausing ep3))
                             in case delayResult t of
                                  Inl err \<Rightarrow> (TickDone, noted (LogLoopError err) ep4)
                                | Inr _ \<Rightarrow> (TickDone, ep4)))))"

text \<open>
  Where the loop stands once the given passes are used up: about to start its next pass,
  or completed (its promise resolved).
\<close>

datatype task_status = Ticking | Completed

text \<open>\<^verbatim>\<open>private async _runLoop(abortSignal)\<close>, for the signal with index \<open>i\<close>.\<close>

fun runLoop :: "nat \<Rightarrow> tick list \<Rightarrow> EventProcessor \<Rightarrow> task_status \<times> EventProcessor" where
  "runLoop i [] ep = (if signalAborted i ep then (Completed, ep) else (Ticking, ep))"
| "runLoop i (t # ts) ep =
     (if signalAborted i ep then (Completed, ep)
      else case tickBody i t ep of
             (TickReturn, ep') \<Rightarrow> (Completed, ep')
           | (TickDone, ep') \<Rightarrow> runLoop i ts ep')"

subsection \<open>start and stop\<close>

text \<open>\<^verbatim>\<open>start()\<close>: a synchronous method.\<close>

definition EventProcessor_start :: "EventProcessor \<Rightarrow> EventProcessor" where
  "EventProcessor_start ep =
     (if isRunning ep then noted LogAlreadyRunning ep
      else
        (let i = length (signals ep);
             ep1 = ep\<lparr>isRunning := True, abortController := Some i, signals := signals ep @ [False]\<rparr>
         in (noted (RunLoop i) (noted LogStarting ep1))\<lparr>loopTask := Some i\<rparr>))"

text \<open>
  \<^verbatim>\<open>stop()\<close> awaits twice, and a control loop launched earlier goes on running
  meanwhile. A loop that awaits \<^verbatim>\<open>listOwnership\<close>, \<^verbatim>\<open>getPartitionIds\<close> or the delay
  when its signal is aborted ends without touching the pumps: it tests the signal after the
  two fetches and in the loop condition. A loop that awaits \<^verbatim>\<open>claimOwnership\<close> inside
  \<^verbatim>\<open>_claimOwnership\<close> meets no test of its signal before it has finished the claim
  procedure and reached the delay. \<open>claim_in_flight\<close> describes such a loop: the request
  it has sent, what the collaborators answer to the rest of the claim, and how its delay
  settles.
\<close>

record claim_in_flight =
  pendingRequest :: PartitionOwnership
  pendingClaim :: claim_env
  pendingDelay :: "unit settled"

text \<open>
  \<^verbatim>\<open>_claimOwnership\<close> from the point where \<^verbatim>\<open>await claimOwnership([ownershipRequest])\<close>
  settles: the same steps as in \<open>EventProcessor_claimOwnership\<close>, on the processor as
  it is by then (\<^verbatim>\<open>partitionIdToClaim\<close> is the partition id of the request).
\<close>

definition claimResumed ::
  "claim_env \<Rightarrow> PartitionOwnership \<Rightarrow> EventProcessor \<Rightarrow> EventProcessor" where
  "claimResumed env ownershipRequest ep1 =
     (case claimOwnershipResult env of
        Inl err \<Rightarrow> noted (LogClaimFailed (partitionId ownershipRequest)) ep1
      | Inr claimed \<Rightarrow>
          (let ctx = \<lparr>pc_consumerGroupName = ep_consumerGroupName ep1,
                      pc_eventHubName = ep_eventHubName ep1,
                      pc_partitionId = partitionId ownershipRequest\<rparr>;
               ep2 = noted (Factory ctx)
                       (noted (LogCallingFactory (partitionId ownershipRequest))
                          (noted (LogClaimed (partitionId ownershipRequest)) ep1))
           in case factoryResult env of
                Inl err \<Rightarrow> noted (LogClaimFailed (partitionId ownershipRequest)) ep2
              | Inr processor \<Rightarrow>
                  (let eventPosition = eventPositionFor (ep_processorOptions ep1) ownershipRequest;
                       ep3 = (noted (CreatePump ctx eventPosition) ep2)
                               \<lparr>pumpManager :=
                                  createPump (createPumpEnv env) ctx eventPosition
                                    processor (pumpManager ep2)\<rparr>
                   in case createPumpResult env of
                        Inl err \<Rightarrow> noted (LogClaimFailed (partitionId ownershipRequest)) ep3
                      | Inr _ \<Rightarrow> noted LogPumpCreated ep3)))"

text \<open>
  The rest of the loop's pass from there: the claim procedure is finished, the pause is
  logged, the delay awaited and its error, if any, logged by the \<^verbatim>\<open>catch\<close>. The signal
  being aborted, the loop condition then ends the loop.
\<close>

definition loopResumed :: "claim_in_flight \<Rightarrow> EventProcessor \<Rightarrow> EventProcessor" where
  "loopResumed inFlight ep =
     (let ep3 = claimResumed (pendingClaim inFlight) (pendingRequest inFlight) ep;
          ep4 = noted (Delay 10000) (noted LogPausing ep3)
      in case pendingDelay inFlight of
           Inl err \<Rightarrow> noted (LogLoopError err) ep4
         | Inr _ \<Rightarrow> ep4)"

text \<open>
  What a loop does during one await of \<^verbatim>\<open>stop()\<close>. Without \<^verbatim>\<open>_loopTask\<close> no loop was
  ever launched.
\<close>

definition loopProgress :: "claim_in_flight option \<Rightarrow> EventProcessor \<Rightarrow> EventProcessor" where
  "loopProgress inFlight ep =
     (case loopTask ep of
        None \<Rightarrow> ep
      | Some i \<Rightarrow> (case inFlight of None \<Rightarrow> ep | Some c \<Rightarrow> loopResumed c ep))"

text \<open>
  What happens around one \<^verbatim>\<open>stop()\<close>: what the collaborators answer to the stop of each
  pump, how the promise of \<^verbatim>\<open>removeAllPumps\<close> settles (the spec does not say whether it
  can reject), how the loop's promise settles when it is awaited, and whether a loop with
  a claim in flight resumes while \<^verbatim>\<open>stop()\<close> awaits \<^verbatim>\<open>removeAllPumps\<close> or while it
  awaits the loop task. The removal itself is one step, as the spec describes it.
\<close>

record ep_stop_env =
  pumpStops :: "string \<Rightarrow> stop_env"
  removeAllPumpsResult :: "unit settled"
  loopTaskResult :: "unit settled"
  loopDuringRemoval :: "claim_in_flight option"
  loopDuringAwait :: "claim_in_flight option"

text \<open>
  \<^verbatim>\<open>async stop()\<close>. Awaiting an undefined \<^verbatim>\<open>_loopTask\<close> completes at once. The
  \<^verbatim>\<open>catch\<close> logs and does not throw again, so the promise always resolves. When
  \<^verbatim>\<open>removeAllPumps\<close> rejects, the loop task is not awaited.
\<close>

definition EventProcessor_stop ::
  "ep_stop_env \<Rightarrow> EventProcessor \<Rightarrow> unit settled \<times> EventProcessor" where
  "EventProcessor_stop env ep =
     (let ep1 = noted LogStopping ep;
          ep2 = (case abortController ep1 of
                   None \<Rightarrow> ep1
                 | Some i \<Rightarrow> noted (AbortCall i) (abortSignal i ep1));
          ep3 = ep2\<lparr>isRunning := False\<rparr>;
          ep4 = loopProgress (loopDuringRemoval env)
                  ((noted (RemoveAllPumps Shutdown) ep3)
                     \<lparr>pumpManager := removeAllPumps Shutdown (pumpStops env) (pumpManager ep3)\<rparr>);
          ep5 = (case removeAllPumpsResult env of
                   Inl err \<Rightarrow> noted (LogStopError err) ep4
                 | Inr _ \<Rightarrow>
                     (case loopTask ep4 of
                        None \<Rightarrow> ep4
                      | Some i \<Rightarrow>
                          (let ep4' = loopProgress (loopDuringAwait env) (noted (AwaitLoopTask i) ep4)
                           in case loopTaskResult env of
                                Inl err \<Rightarrow> noted (LogStopError err) ep4'
                              | Inr _ \<Rightarrow> ep4')))
      in (Inr (), noted LogStopped ep5))"

text \<open>The fields of the processor, its pump manager included, without the record of calls.\<close>

definition fieldsOf :: "EventProcessor \<Rightarrow> EventProcessor" where
  "fieldsOf ep = ep\<lparr>ep_calls := []\<rparr>"

subsection \<open>What the user's handler saw, and a pump to run\<close>

text \<open>The calls that hand a batch or an error to the user's handler.\<close>

fun isDispatch :: "call \<Rightarrow> bool" where
  "isDispatch (ProcessEvents events) = True"
| "isDispatch (ProcessError err) = True"
| "isDispatch c = False"

definition dispatches :: "PartitionPump \<Rightarrow> call list" where
  "dispatches p = filter isDispatch (calls p)"

text \<open>
  A pump for partition "0" whose handler defines both optional methods, started with
  default options: its consumer is open at the earliest position and its loop is about
  to await the first batch.
\<close>

definition exampleContext :: PartitionContext where
  "exampleContext = \<lparr>pc_consumerGroupName = ''cg'', pc_eventHubName = ''hub'', pc_partitionId = ''0''\<rparr>"

definition quietStop :: stop_env where
  "quietStop = \<lparr>receiverCloseResult = Inr (), userCloseResult = Inr ()\<rparr>"

definition runningPump :: PartitionPump where
  "runningPump =
     snd (snd (PartitionPump_start
       \<lparr>initializeResult = Inr (), createConsumerResult = Inr (), iterations = []\<rparr>
       (newPartitionPump exampleContext \<lparr>hasInitialize = True, hasClose = True\<rparr> None)))"







subsection \<open>A processor to run, and what is observed of it\<close>

text \<open>
  Collaborators that answer without fault: a new pump whose loop has not yet received
  anything, a claim that the store commits with nothing to report, a pass of the control
  loop in which the hub has no partitions.
\<close>

definition quietPump :: pump_env where
  "quietPump = \<lparr>initializeResult = Inr (), createConsumerResult = Inr (), iterations = []\<rparr>"

definition quietClaim :: claim_env where
  "quietClaim =
     \<lparr>claimOwnershipResult = Inr [],
      factoryResult = Inr \<lparr>hasInitialize = False, hasClose = False\<rparr>,
      createPumpEnv = \<lparr>oldPumpStop = quietStop, newPumpEnv = quietPump\<rparr>,
      createPumpResult = Inr ()\<rparr>"

definition quietTick :: tick where
  "quietTick =
     \<lparr>listOwnershipResult = Inr [], getPartitionIdsResult = Inr [], abortedWhileFetching = False,
      loadBalanceResult = Inr None, claimEnv = quietClaim, delayResult = Inr (),
      abortedLater = False\<rparr>"

definition storeDown :: thrown where
  "storeDown = JsObject ''ServiceUnavailableError'' True"

text \<open>
  A processor "me" on hub "hub", consumer group "cg", whose options set
  \<^verbatim>\<open>initialEventPosition\<close> to the latest position; the same after \<^verbatim>\<open>start()\<close>.
\<close>

definition latestProcessor :: EventProcessor where
  "latestProcessor =
     newEventProcessor ''cg'' ''hub'' (Some (emptyOptions\<lparr>initialEventPosition := Some Latest\<rparr>)) ''me''"

definition startedProcessor :: EventProcessor where
  "startedProcessor = EventProcessor_start latestProcessor"

text \<open>
  The first pass of the started processor's loop on a hub with the one partition "1",
  which nobody owns: the load balancer picks it and the store commits the claim; the
  handler the factory returns defines \<^verbatim>\<open>close\<close>; the delay rejects, its signal being
  aborted. Then the request of that pass, the processor at the moment the loop awaits
  \<^verbatim>\<open>claimOwnership\<close>, and that loop as a claim in flight.
\<close>

definition abortError :: thrown where
  "abortError = JsObject ''AbortError'' False"

definition claimingOne :: tick where
  "claimingOne =
     quietTick\<lparr>getPartitionIdsResult := Inr [''1''],
               loadBalanceResult := Inr (Some ''1''),
               claimEnv := quietClaim\<lparr>factoryResult := Inr \<lparr>hasInitialize = False, hasClose = True\<rparr>\<rparr>,
               delayResult := Inl abortError\<rparr>"

definition requestForOne :: PartitionOwnership where
  "requestForOne = createPartitionOwnershipRequest startedProcessor (ownershipMapOf []) ''1''"

definition midClaim :: EventProcessor where
  "midClaim =
     noted (ClaimOwnership requestForOne)
       (noted (LogAttemptClaim ''1'')
          (noted (LoadBalance [''1''])
             (noted GetPartitionIds (noted ListOwnership startedProcessor))))"

definition claimOfOneInFlight :: claim_in_flight where
  "claimOfOneInFlight =
     \<lparr>pendingRequest = requestForOne, pendingClaim = claimEnv claimingOne,
      pendingDelay = delayResult claimingOne\<rparr>"

text \<open>
  A \<^verbatim>\<open>stop()\<close> during which every collaborator answers without fault and no loop has a
  claim in flight; and one during which the loop above resumes while its task is awaited.
\<close>

definition quietProcessorStop :: ep_stop_env where
  "quietProcessorStop =
     \<lparr>pumpStops = (\<lambda>k. quietStop), removeAllPumpsResult = Inr (), loopTaskResult = Inr (),
      loopDuringRemoval = None, loopDuringAwait = None\<rparr>"

definition stopMidClaim :: ep_stop_env where
  "stopMidClaim = quietProcessorStop\<lparr>loopDuringAwait := Some claimOfOneInFlight\<rparr>"

text \<open>
  The ownership record of partition "1" as another processor left it, last checkpointed
  at sequence number \<open>n\<close>.
\<close>

definition checkpointedAt :: "int \<Rightarrow> PartitionOwnership" where
  "checkpointedAt n =
     \<lparr>eventHubName = ''hub'', consumerGroupName = ''cg'', ownerId = ''other'', partitionId = ''1'',
      ownerLevel = 0, offset = Some (100 * n), sequenceNumber = Some n,
      lastModifiedTimeInMS = Some 1000, eTag = Some ''E1''\<rparr>"

text \<open>For each pump in the index, the position its reader was opened at.\<close>

definition pumpsOpenedAt :: "EventProcessor \<Rightarrow> (string \<times> EventPosition option) list" where
  "pumpsOpenedAt ep = map (\<lambda>(k, p). (k, receiver p)) (pumps (pumpManager ep))"

text \<open>
  A pass of the control loop during which nobody aborts the loop's signal; and the number
  of passes a processor's loops have begun (each begins with \<^verbatim>\<open>listOwnership\<close>).
\<close>

definition undisturbed :: "tick \<Rightarrow> bool" where
  "undisturbed t = (\<not> abortedWhileFetching t \<and> \<not> abortedLater t)"

definition passesStarted :: "EventProcessor \<Rightarrow> nat" where
  "passesStarted ep = length (filter (\<lambda>c. c = ListOwnership) (ep_calls ep))"

section \<open>Properties of the partition pump\<close>


lemma isReceiving_called: "isReceiving (called c p) = isReceiving p"
  by (simp add: called_def)

subsection \<open>stop\<close>

lemma runningPump_eq:
  "runningPump = \<lparr>partitionContext = exampleContext,
      partitionProcessor = \<lparr>hasInitialize = True, hasClose = True\<rparr>,
      processorOptions = emptyOptions,
      receiver = Some Earliest, isReceiving = True, aborted = False,
      calls = [Initialize, CreateConsumer ''cg'' ''0'' Earliest 0]\<rparr>"
  by (simp add: runningPump_def PartitionPump_start_def newPartitionPump_def receiveEvents_def
      called_def startPosition_def emptyOptions_def exampleContext_def)

lemma stop_isReceiving: "isReceiving (snd (PartitionPump_stop reason env p)) = False"
  by (simp add: PartitionPump_stop_def Let_def called_def split: sum.splits)

lemma stop_dispatches: "dispatches (snd (PartitionPump_stop reason env p)) = dispatches p"
  by (simp add: PartitionPump_stop_def Let_def called_def dispatches_def split: sum.splits)

lemma stop_receiver: "receiver (snd (PartitionPump_stop reason env p)) = receiver p"
  by (simp add: PartitionPump_stop_def Let_def called_def split: sum.splits)

lemma stop_processor: "partitionProcessor (snd (PartitionPump_stop reason env p)) = partitionProcessor p"
  by (simp add: PartitionPump_stop_def Let_def called_def split: sum.splits)

lemma stop_outcome:
  "fst (PartitionPump_stop reason env p) =
     (if receiver p \<noteq> None \<and> isl (receiverCloseResult env) then receiverCloseResult env
      else if hasClose (partitionProcessor p) then userCloseResult env
      else Inr ())"
  by (cases "receiverCloseResult env"; cases "userCloseResult env")
     (simp_all add: PartitionPump_stop_def Let_def called_def)

lemma stop_aborted:
  "aborted (snd (PartitionPump_stop reason env p)) =
     (if receiver p \<noteq> None \<and> isl (receiverCloseResult env) then aborted p else True)"
  by (cases "receiverCloseResult env"; cases "userCloseResult env")
     (simp_all add: PartitionPump_stop_def Let_def called_def)

lemma stop_calls:
  "calls (snd (PartitionPump_stop reason env p)) =
     calls p @
     (if receiver p \<noteq> None then [ReceiverClose] else []) @
     (if receiver p \<noteq> None \<and> isl (receiverCloseResult env)
      then [LogCloseFailed (projl (receiverCloseResult env))]
      else Abort #
        (if hasClose (partitionProcessor p)
         then Close reason #
           (if isl (userCloseResult env) then [LogCloseFailed (projl (userCloseResult env))] else [])
         else []))"
  by (cases "receiverCloseResult env"; cases "userCloseResult env")
     (simp_all add: PartitionPump_stop_def Let_def called_def)

text \<open>
  Claim C5, as the code has it. \<^verbatim>\<open>PartitionPump.stop(reason)\<close> sets \<^verbatim>\<open>isReceiving\<close>
  to false, then closes the broker reader if one was created, then aborts the pump's
  cancellation token, then calls the handler's \<^verbatim>\<open>close(reason)\<close> if it is defined. An error
  raised by the reader's close or by the handler's close is logged and thrown again to the
  caller of \<^verbatim>\<open>stop\<close>, and the steps after the failing one are skipped (a failing reader
  close leaves the token as it was). A second \<^verbatim>\<open>stop\<close> runs the same sequence again,
  however the collaborators answer it: it leaves \<^verbatim>\<open>isReceiving\<close> false and the reader
  reference as it was, closes the reader again and, unless that close fails, aborts the
  token (an aborted token stays aborted) and calls \<^verbatim>\<open>close\<close> again with its own reason,
  and it settles by the same rule. When the collaborators answer the second \<^verbatim>\<open>stop\<close> as
  they answered the first, the token is left as the first left it and the second settles
  as the first did.
\<close>

theorem PartitionPump_stop_rethrows_and_repeats:
  "isReceiving (snd (PartitionPump_stop reason env p)) = False \<and>
   fst (PartitionPump_stop reason env p) =
     (if receiver p \<noteq> None \<and> isl (receiverCloseResult env) then receiverCloseResult env
      else if hasClose (partitionProcessor p) then userCloseResult env
      else Inr ()) \<and>
   aborted (snd (PartitionPump_stop reason env p)) =
     (if receiver p \<noteq> None \<and> isl (receiverCloseResult env) then aborted p else True) \<and>
   calls (snd (PartitionPump_stop reason env p)) =
     calls p @
     (if receiver p \<noteq> None then [ReceiverClose] else []) @
     (if receiver p \<noteq> None \<and> isl (receiverCloseResult env)
      then [LogCloseFailed (projl (receiverCloseResult env))]
      else Abort #
        (if hasClose (partitionProcessor p)
         then Close reason #
           (if isl (userCloseResult env) then [LogCloseFailed (projl (userCloseResult env))] else [])
         else [])) \<and>
   isReceiving (snd (PartitionPump_stop reason' env' (snd (PartitionPump_stop reason env p)))) =
     False \<and>
   receiver (snd (PartitionPump_stop reason' env' (snd (PartitionPump_stop reason env p)))) =
     receiver p \<and>
   aborted (snd (PartitionPump_stop reason' env' (snd (PartitionPump_stop reason env p)))) =
     (if receiver p \<noteq> None \<and> isl (receiverCloseResult env')
      then aborted (snd (PartitionPump_stop reason env p)) else True) \<and>
   fst (PartitionPump_stop reason' env' (snd (PartitionPump_stop reason env p))) =
     (if receiver p \<noteq> None \<and> isl (receiverCloseResult env') then receiverCloseResult env'
      else if hasClose (partitionProcessor p) then userCloseResult env'
      else Inr ()) \<and>
   calls (snd (PartitionPump_stop reason' env' (snd (PartitionPump_stop reason env p)))) =
     calls (snd (PartitionPump_stop reason env p)) @
     (if receiver p \<noteq> None then [ReceiverClose] else []) @
     (if receiver p \<noteq> None \<and> isl (receiverCloseResult env')
      then [LogCloseFailed (projl (receiverCloseResult env'))]
      else Abort #
        (if hasClose (partitionProcessor p)
         then Close reason' #
           (if isl (userCloseResult env') then [LogCloseFailed (projl (userCloseResult env'))] else [])
         else [])) \<and>
   aborted (snd (PartitionPump_stop reason' env (snd (PartitionPump_stop reason env p)))) =
     aborted (snd (PartitionPump_stop reason env p)) \<and>
   fst (PartitionPump_stop reason' env (snd (PartitionPump_stop reason env p))) =
     fst (PartitionPump_stop reason env p)"
proof -
  let ?p' = "snd (PartitionPump_stop reason env p)"
  have r: "receiver ?p' = receiver p" and h: "partitionProcessor ?p' = partitionProcessor p"
    by (rule stop_receiver, rule stop_processor)
  have a: "aborted (snd (PartitionPump_stop reason' env ?p')) = aborted ?p'"
    by (simp add: stop_aborted stop_receiver)
  have o: "fst (PartitionPump_stop reason' env ?p') = fst (PartitionPump_stop reason env p)"
    by (simp add: stop_outcome stop_receiver stop_processor)
  have a2: "aborted (snd (PartitionPump_stop reason' env' ?p')) =
      (if receiver p \<noteq> None \<and> isl (receiverCloseResult env') then aborted ?p' else True)"
    using stop_aborted [of reason' env' ?p'] by (simp only: r)
  have o2: "fst (PartitionPump_stop reason' env' ?p') =
      (if receiver p \<noteq> None \<and> isl (receiverCloseResult env') then receiverCloseResult env'
       else if hasClose (partitionProcessor p) then userCloseResult env'
       else Inr ())"
    using stop_outcome [of reason' env' ?p'] by (simp only: r h)
  have c2: "calls (snd (PartitionPump_stop reason' env' ?p')) =
     calls ?p' @
     (if receiver p \<noteq> None then [ReceiverClose] else []) @
     (if receiver p \<noteq> None \<and> isl (receiverCloseResult env')
      then [LogCloseFailed (projl (receiverCloseResult env'))]
      else Abort #
        (if hasClose (partitionProcessor p)
         then Close reason' #
           (if isl (userCloseResult env') then [LogCloseFailed (projl (userCloseResult env'))] else [])
         else []))"
    using stop_calls [of reason' env' ?p'] by (simp only: r h)
  show ?thesis
    by (intro conjI)
       (rule stop_isReceiving, rule stop_outcome, rule stop_aborted, rule stop_calls,
        rule stop_isReceiving, simp only: stop_receiver, rule a2, rule o2, rule c2, rule a, rule o)
qed

text \<open>
  Claim C5 as stated fails: when the handler's \<^verbatim>\<open>close\<close> throws, the promise of
  \<^verbatim>\<open>stop\<close> rejects with that error; and two stops of one pump close the reader twice and
  call the handler's \<^verbatim>\<open>close\<close> twice.
\<close>

theorem PartitionPump_stop_rethrows_close_error:
  "fst (PartitionPump_stop Shutdown
          \<lparr>receiverCloseResult = Inr (), userCloseResult = Inl (JsObject ''Error'' False)\<rparr>
          runningPump) = Inl (JsObject ''Error'' False) \<and>
   calls (snd (PartitionPump_stop Shutdown quietStop
            (snd (PartitionPump_stop Shutdown quietStop runningPump)))) =
     [Initialize, CreateConsumer ''cg'' ''0'' Earliest 0,
      ReceiverClose, Abort, Close Shutdown, ReceiverClose, Abort, Close Shutdown]"
  by (simp add: runningPump_eq PartitionPump_stop_def quietStop_def called_def)


subsection \<open>The receive loop\<close>



lemma stoppedMeanwhile_Some:
  "stoppedMeanwhile (Some (reason, env)) p = snd (PartitionPump_stop reason env p)"
  by (simp add: stoppedMeanwhile_def)




lemma called_dispatches:
  "dispatches (called c p) = dispatches p @ (if isDispatch c then [c] else [])"
  by (simp add: dispatches_def called_def)




text \<open>
  Claim C7. If \<^verbatim>\<open>stop\<close> ran while a \<^verbatim>\<open>receiveBatch\<close> was in flight, then whether the
  await settles with a batch or with an error, the receive loop returns, the handler is
  handed neither the batch (\<^verbatim>\<open>processEvents\<close>) nor the error (\<^verbatim>\<open>processError\<close>), and the
  pump is left as that stop left it.
\<close>

theorem stop_during_receive_exits_without_dispatch:
  "fst (receiveLoop (it\<lparr>stopDuringReceive := Some (reason, env)\<rparr> # rest) p) = Returned \<and>
   dispatches (snd (receiveLoop (it\<lparr>stopDuringReceive := Some (reason, env)\<rparr> # rest) p)) =
     dispatches p \<and>
   snd (receiveLoop (it\<lparr>stopDuringReceive := Some (reason, env)\<rparr> # rest) p) =
     (if isReceiving p
      then snd (PartitionPump_stop reason env
                  (called (ReceiveBatch (batchSize (processorOptions p))
                             (maxWaitTimeInSeconds (processorOptions p))) p))
      else p)"
proof (cases "isReceiving p")
  case False
  then show ?thesis by simp
next
  case True
  let ?it = "it\<lparr>stopDuringReceive := Some (reason, env)\<rparr>"
  let ?p1 = "called (ReceiveBatch (batchSize (processorOptions p))
                       (maxWaitTimeInSeconds (processorOptions p))) p"
  let ?p2 = "snd (PartitionPump_stop reason env ?p1)"
  have nr: "\<not> isReceiving ?p2" by (simp add: stop_isReceiving)
  have body: "loopBody ?it p = (Return, ?p2)"
    using nr by (cases "received it") (simp_all add: loopBody_def stoppedMeanwhile_Some catchBlock_def)
  have d: "dispatches ?p2 = dispatches p"
    by (simp add: stop_dispatches called_dispatches)
  show ?thesis using True body d by simp
qed






























subsection \<open>start\<close>

lemma start_resolves: "fst (PartitionPump_start env p) = Inr ()"
  by (simp add: PartitionPump_start_def Let_def)

lemma start_launches:
  "snd (PartitionPump_start env p) =
     receiveEvents (pc_partitionId (partitionContext p)) env
       (if hasInitialize (partitionProcessor p) then called Initialize (p\<lparr>isReceiving := True\<rparr>)
        else p\<lparr>isReceiving := True\<rparr>)"
  by (simp add: PartitionPump_start_def Let_def called_def)

lemma receiveEvents_createConsumer_throws:
  "fst (receiveEvents pid (env\<lparr>createConsumerResult := Inl err\<rparr>) p) = Rejected err"
  by (simp add: receiveEvents_def Let_def)

lemma receiveEvents_null_received:
  "isReceiving p \<Longrightarrow>
   fst (receiveEvents pid
          (env\<lparr>createConsumerResult := Inr (),
               iterations := it\<lparr>stopDuringReceive := None, received := Inl JsNull\<rparr> # rest\<rparr>) p) =
     Rejected TypeError"
  by (simp add: receiveEvents_def Let_def called_def loopBody_def stoppedMeanwhile_def catchBlock_def)

text \<open>
  Claim C9. The promise returned by \<^verbatim>\<open>PartitionPump.start()\<close> resolves whatever
  \<^verbatim>\<open>initialize()\<close> did and whatever happens in the receive loop, which is launched after
  \<^verbatim>\<open>initialize()\<close> and not awaited: it resolves also when the loop's own promise is
  rejected, be it by \<^verbatim>\<open>createConsumer\<close> throwing or in the pass of the very first
  \<^verbatim>\<open>receiveBatch\<close>.
\<close>

theorem PartitionPump_start_always_resolves:
  "fst (PartitionPump_start env p) = Inr () \<and>
   snd (PartitionPump_start env p) =
     receiveEvents (pc_partitionId (partitionContext p)) env
       (if hasInitialize (partitionProcessor p) then called Initialize (p\<lparr>isReceiving := True\<rparr>)
        else p\<lparr>isReceiving := True\<rparr>) \<and>
   fst (PartitionPump_start (env\<lparr>createConsumerResult := Inl err\<rparr>) p) = Inr () \<and>
   fst (snd (PartitionPump_start (env\<lparr>createConsumerResult := Inl err\<rparr>) p)) = Rejected err \<and>
   fst (PartitionPump_start
          (env\<lparr>createConsumerResult := Inr (),
               iterations := it\<lparr>stopDuringReceive := None, received := Inl JsNull\<rparr> # rest\<rparr>) p) = Inr () \<and>
   fst (snd (PartitionPump_start
          (env\<lparr>createConsumerResult := Inr (),
               iterations := it\<lparr>stopDuringReceive := None, received := Inl JsNull\<rparr> # rest\<rparr>) p)) =
     Rejected TypeError"
proof -
  have run: "isReceiving (if hasInitialize (partitionProcessor p)
                          then called Initialize (p\<lparr>isReceiving := True\<rparr>)
                          else p\<lparr>isReceiving := True\<rparr>)"
    by (simp add: isReceiving_called)
  show ?thesis
    using run
    by (simp only: start_resolves start_launches receiveEvents_createConsumer_throws
        receiveEvents_null_received)
qed

section \<open>Properties of the event processor\<close>

subsection \<open>The claim procedure\<close>

lemmas claim_defs = EventProcessor_claimOwnership_def createPartitionOwnershipRequest_def
  eventPositionFor_def noted_def createPump_def newPartitionPump_def PartitionPump_start_def
  receiveEvents_def called_def startPosition_def ownershipMapOf_def latestProcessor_def
  newEventProcessor_def newPumpManager_def emptyOptions_def quietClaim_def quietPump_def
  quietStop_def checkpointedAt_def pumpsOpenedAt_def Let_def

text \<open>
  Claim C1 says that a pump created after a successful claim whose previous ownership
  record holds a \<^verbatim>\<open>sequenceNumber\<close> opens its reader at
  \<^verbatim>\<open>fromSequenceNumber\<close> of it. Here the record of partition "1" holds sequence number 0,
  the claim is committed, and the processor hands \<^verbatim>\<open>createPump\<close> the latest position, its
  own \<^verbatim>\<open>initialEventPosition\<close>; the new pump opens its reader there.
\<close>

theorem checkpoint_at_zero_opens_at_initial_position:
  "pumpsOpenedAt
     (EventProcessor_claimOwnership
        (quietClaim\<lparr>claimOwnershipResult := Inr [(checkpointedAt 0)\<lparr>ownerId := ''me'', eTag := Some ''E2''\<rparr>]\<rparr>)
        (ownershipMapOf [checkpointedAt 0]) ''1'' latestProcessor) = [(''1'', Some Latest)] \<and>
   map (\<lambda>(k, p). (k, calls p))
     (pumps (pumpManager
       (EventProcessor_claimOwnership
          (quietClaim\<lparr>claimOwnershipResult := Inr [(checkpointedAt 0)\<lparr>ownerId := ''me'', eTag := Some ''E2''\<rparr>]\<rparr>)
          (ownershipMapOf [checkpointedAt 0]) ''1'' latestProcessor))) =
     [(''1'', [CreateConsumer ''cg'' ''1'' Latest 0])] \<and>
   ep_calls
     (EventProcessor_claimOwnership
        (quietClaim\<lparr>claimOwnershipResult := Inr [(checkpointedAt 0)\<lparr>ownerId := ''me'', eTag := Some ''E2''\<rparr>]\<rparr>)
        (ownershipMapOf [checkpointedAt 0]) ''1'' latestProcessor) =
     [LogAttemptClaim ''1'',
      ClaimOwnership ((checkpointedAt 0)\<lparr>ownerId := ''me'', lastModifiedTimeInMS := None\<rparr>),
      LogClaimed ''1'', LogCallingFactory ''1'',
      Factory \<lparr>pc_consumerGroupName = ''cg'', pc_eventHubName = ''hub'', pc_partitionId = ''1''\<rparr>,
      CreatePump \<lparr>pc_consumerGroupName = ''cg'', pc_eventHubName = ''hub'', pc_partitionId = ''1''\<rparr>
        Latest,
      LogPumpCreated]"
  by (simp add: claim_defs)

text \<open>
  With a checkpoint at sequence number 42 the reader is opened at
  \<^verbatim>\<open>fromSequenceNumber(42)\<close>.
\<close>

lemma nonzero_checkpoint_opens_at_sequence_number:
  "pumpsOpenedAt
     (EventProcessor_claimOwnership
        (quietClaim\<lparr>claimOwnershipResult := Inr [(checkpointedAt 42)\<lparr>ownerId := ''me'', eTag := Some ''E2''\<rparr>]\<rparr>)
        (ownershipMapOf [checkpointedAt 42]) ''1'' latestProcessor) = [(''1'', Some (FromSequenceNumber 42))]"
  by (simp add: claim_defs)

lemma claim_result_ignored:
  "EventProcessor_claimOwnership (env\<lparr>claimOwnershipResult := Inr claimed\<rparr>) m pid ep =
   EventProcessor_claimOwnership (env\<lparr>claimOwnershipResult := Inr []\<rparr>) m pid ep"
  by (simp add: EventProcessor_claimOwnership_def Let_def split: sum.splits)

text \<open>
  Claim C2 says that a \<^verbatim>\<open>claimOwnership\<close> which resolves with an empty list is treated
  as a lost race: no partition context, no call of the user's factory, no pump. Here the
  store commits nothing and resolves with the empty list; the processor logs the claim as
  made, calls the factory and creates a pump for partition "1", as it does for any list
  the store resolves with.
\<close>

theorem empty_claim_result_still_creates_pump:
  "EventProcessor_claimOwnership (env\<lparr>claimOwnershipResult := Inr []\<rparr>) m pid ep =
   EventProcessor_claimOwnership (env\<lparr>claimOwnershipResult := Inr claimed\<rparr>) m pid ep \<and>
   ep_calls (EventProcessor_claimOwnership (quietClaim\<lparr>claimOwnershipResult := Inr []\<rparr>)
        (ownershipMapOf [checkpointedAt 5]) ''1'' latestProcessor) =
     [LogAttemptClaim ''1'',
      ClaimOwnership ((checkpointedAt 5)\<lparr>ownerId := ''me'', lastModifiedTimeInMS := None\<rparr>),
      LogClaimed ''1'', LogCallingFactory ''1'',
      Factory \<lparr>pc_consumerGroupName = ''cg'', pc_eventHubName = ''hub'', pc_partitionId = ''1''\<rparr>,
      CreatePump \<lparr>pc_consumerGroupName = ''cg'', pc_eventHubName = ''hub'', pc_partitionId = ''1''\<rparr>
        (FromSequenceNumber 5),
      LogPumpCreated] \<and>
   pumpsOpenedAt (EventProcessor_claimOwnership (quietClaim\<lparr>claimOwnershipResult := Inr []\<rparr>)
        (ownershipMapOf [checkpointedAt 5]) ''1'' latestProcessor) =
     [(''1'', Some (FromSequenceNumber 5))]"
proof (intro conjI)
  show "EventProcessor_claimOwnership (env\<lparr>claimOwnershipResult := Inr []\<rparr>) m pid ep =
        EventProcessor_claimOwnership (env\<lparr>claimOwnershipResult := Inr claimed\<rparr>) m pid ep"
    by (rule claim_result_ignored [symmetric])
qed (simp_all add: claim_defs)

subsection \<open>The control loop\<close>

lemma signals_noted: "signals (noted c ep) = signals ep"
  by (simp add: noted_def)

lemma signalAborted_noted: "signalAborted i (noted c ep) = signalAborted i ep"
  by (simp add: signalAborted_def noted_def)

lemma passesStarted_noted:
  "passesStarted (noted c ep) = passesStarted ep + (if c = ListOwnership then 1 else 0)"
  by (simp add: passesStarted_def noted_def)

lemma fired_False: "fired False i ep = ep"
  by (simp add: fired_def)

lemma claimOwnership_signals:
  "signals (EventProcessor_claimOwnership env m pid ep) = signals ep"
  by (simp add: EventProcessor_claimOwnership_def Let_def noted_def split: sum.splits)

lemma claimOwnership_passesStarted:
  "passesStarted (EventProcessor_claimOwnership env m pid ep) = passesStarted ep"
  by (simp add: EventProcessor_claimOwnership_def Let_def noted_def passesStarted_def
      split: sum.splits)

lemma balanceAndClaim_signalAborted:
  "signalAborted i (snd (balanceAndClaim t m ids ep)) = signalAborted i ep"
  by (simp add: balanceAndClaim_def Let_def signalAborted_def claimOwnership_signals signals_noted
      split: sum.splits option.splits)

lemma balanceAndClaim_passesStarted:
  "passesStarted (snd (balanceAndClaim t m ids ep)) = passesStarted ep"
  by (simp add: balanceAndClaim_def Let_def claimOwnership_passesStarted passesStarted_noted
      split: sum.splits option.splits)

lemma tickBody_TickReturn:
  "tickBody i t ep = (TickReturn, ep') \<Longrightarrow> signalAborted i ep'"
  by (auto simp: tickBody_def Let_def split: sum.splits if_splits prod.splits)

lemma tickBody_undisturbed:
  assumes "\<not> signalAborted i ep" and "undisturbed t"
  shows "\<exists>ep'. tickBody i t ep = (TickDone, ep') \<and> \<not> signalAborted i ep' \<and>
               passesStarted ep' = Suc (passesStarted ep)"
proof -
  from assms(2) have f: "abortedWhileFetching t = False" "abortedLater t = False"
    by (simp_all add: undisturbed_def)
  show ?thesis
  proof (cases "listOwnershipResult t")
    case (Inl err)
    with assms(1) f show ?thesis
      by (simp add: tickBody_def fired_False signalAborted_noted passesStarted_noted)
  next
    case lo: (Inr os)
    show ?thesis
    proof (cases "getPartitionIdsResult t")
      case (Inl err)
      with assms(1) f lo show ?thesis
        by (simp add: tickBody_def fired_False signalAborted_noted passesStarted_noted)
    next
      case gp: (Inr ids)
      let ?ep2 = "noted GetPartitionIds (noted ListOwnership ep)"
      obtain r ep3 where b: "balanceAndClaim t (ownershipMapOf os) ids ?ep2 = (r, ep3)"
        by (cases "balanceAndClaim t (ownershipMapOf os) ids ?ep2")
      from b balanceAndClaim_signalAborted [of i t "ownershipMapOf os" ids ?ep2] assms(1)
      have s3: "\<not> signalAborted i ep3" by (simp add: signalAborted_noted)
      from b balanceAndClaim_passesStarted [of t "ownershipMapOf os" ids ?ep2]
      have p3: "passesStarted ep3 = Suc (passesStarted ep)" by (simp add: passesStarted_noted)
      from assms(1) f lo gp b s3 p3 show ?thesis
        by (cases r; cases "delayResult t")
           (simp_all add: tickBody_def fired_False signalAborted_noted passesStarted_noted)
    qed
  qed
qed

lemma runLoop_Completed:
  "fst (runLoop i ts ep) = Completed \<Longrightarrow> signalAborted i (snd (runLoop i ts ep))"
proof (induction ts arbitrary: ep)
  case Nil
  then show ?case by (simp split: if_splits)
next
  case (Cons t ts)
  show ?case
  proof (cases "signalAborted i ep")
    case True
    then show ?thesis by simp
  next
    case False
    obtain e ep' where tb: "tickBody i t ep = (e, ep')" by (cases "tickBody i t ep")
    show ?thesis
    proof (cases e)
      case TickReturn
      with tb False tickBody_TickReturn [of i t ep ep'] show ?thesis by simp
    next
      case TickDone
      with tb False Cons.prems Cons.IH [of ep'] show ?thesis by simp
    qed
  qed
qed

lemma runLoop_undisturbed:
  "\<not> signalAborted i ep \<Longrightarrow> list_all undisturbed ts \<Longrightarrow>
   fst (runLoop i ts ep) = Ticking \<and>
   passesStarted (snd (runLoop i ts ep)) = passesStarted ep + length ts"
proof (induction ts arbitrary: ep)
  case Nil
  then show ?case by simp
next
  case (Cons t ts)
  from Cons.prems have "undisturbed t" and rest: "list_all undisturbed ts" by simp_all
  with Cons.prems(1) tickBody_undisturbed obtain ep' where
      tb: "tickBody i t ep = (TickDone, ep')" and na: "\<not> signalAborted i ep'"
      and ps: "passesStarted ep' = Suc (passesStarted ep)"
    by blast
  from Cons.IH [OF na rest] tb ps Cons.prems(1) show ?case by simp
qed


lemma tickBody_listOwnership_throws:
  "\<not> abortedWhileFetching t \<Longrightarrow> listOwnershipResult t = Inl err \<Longrightarrow>
   tickBody i t ep = (TickDone, noted (LogLoopError err) (noted ListOwnership ep))"
  by (simp add: tickBody_def fired_False)

lemma tickBody_getPartitionIds_throws:
  "\<not> abortedWhileFetching t \<Longrightarrow> listOwnershipResult t = Inr os \<Longrightarrow>
   getPartitionIdsResult t = Inl err \<Longrightarrow>
   tickBody i t ep =
     (TickDone, noted (LogLoopError err) (noted GetPartitionIds (noted ListOwnership ep)))"
  by (simp add: tickBody_def fired_False)

lemma tickBody_delay_throws:
  "\<not> signalAborted i ep \<Longrightarrow> undisturbed t \<Longrightarrow> listOwnershipResult t = Inr os \<Longrightarrow>
   getPartitionIdsResult t = Inr ids \<Longrightarrow>
   balanceAndClaim t (ownershipMapOf os) ids (noted GetPartitionIds (noted ListOwnership ep)) =
     (Inr (), ep3) \<Longrightarrow>
   delayResult t = Inl err \<Longrightarrow>
   tickBody i t ep =
     (TickDone, noted (LogLoopError err) (noted (Delay 10000) (noted LogPausing ep3)))"
  by (simp add: tickBody_def fired_False undisturbed_def signalAborted_noted)

lemma claimOwnership_throws:
  "EventProcessor_claimOwnership (env\<lparr>claimOwnershipResult := Inl err\<rparr>) m pid ep =
     noted (LogClaimFailed pid)
       (noted (ClaimOwnership (createPartitionOwnershipRequest ep m pid))
          (noted (LogAttemptClaim pid) ep))"
  by (simp add: EventProcessor_claimOwnership_def Let_def createPartitionOwnershipRequest_def)

lemma balanceAndClaim_no_throw:
  "fst (balanceAndClaim (t\<lparr>loadBalanceResult := Inr target\<rparr>) m ids ep) = Inr ()"
  by (simp add: balanceAndClaim_def Let_def split: option.splits)

text \<open>
  Claim C6. The control loop completes only with its signal aborted. While nobody aborts
  the signal, every pass runs to its end and the loop stands ready for the next one,
  whatever the store, the client, the load balancer, the claim and the delay answered. An
  error thrown by \<^verbatim>\<open>listOwnership\<close>, by \<^verbatim>\<open>getPartitionIds\<close> or by the delay is logged by
  the loop and the loop goes on with the remaining passes; an error thrown by
  \<^verbatim>\<open>claimOwnership\<close> is logged inside the claim procedure, which returns normally, so that
  the pass goes on to its delay.
\<close>

theorem runLoop_survives_faults:
  "(fst (runLoop i ts ep) = Completed \<longrightarrow> signalAborted i (snd (runLoop i ts ep))) \<and>
   (\<not> signalAborted i ep \<and> list_all undisturbed ts \<longrightarrow>
      fst (runLoop i ts ep) = Ticking \<and>
      passesStarted (snd (runLoop i ts ep)) = passesStarted ep + length ts) \<and>
   (\<not> signalAborted i ep \<and> \<not> abortedWhileFetching t \<and> listOwnershipResult t = Inl err \<longrightarrow>
      runLoop i (t # ts) ep = runLoop i ts (noted (LogLoopError err) (noted ListOwnership ep))) \<and>
   (\<not> signalAborted i ep \<and> \<not> abortedWhileFetching t \<and> listOwnershipResult t = Inr os \<and>
    getPartitionIdsResult t = Inl err \<longrightarrow>
      runLoop i (t # ts) ep =
        runLoop i ts (noted (LogLoopError err) (noted GetPartitionIds (noted ListOwnership ep)))) \<and>
   (\<not> signalAborted i ep \<and> undisturbed t \<and> listOwnershipResult t = Inr os \<and>
    getPartitionIdsResult t = Inr ids \<and>
    balanceAndClaim t (ownershipMapOf os) ids (noted GetPartitionIds (noted ListOwnership ep)) =
      (Inr (), ep3) \<and>
    delayResult t = Inl err \<longrightarrow>
      runLoop i (t # ts) ep =
        runLoop i ts (noted (LogLoopError err) (noted (Delay 10000) (noted LogPausing ep3)))) \<and>
   EventProcessor_claimOwnership (env\<lparr>claimOwnershipResult := Inl err\<rparr>) m pid ep =
     noted (LogClaimFailed pid)
       (noted (ClaimOwnership (createPartitionOwnershipRequest ep m pid))
          (noted (LogAttemptClaim pid) ep)) \<and>
   fst (balanceAndClaim (t\<lparr>loadBalanceResult := Inr target\<rparr>) m ids ep) = Inr ()"
proof (intro conjI impI)
  assume "fst (runLoop i ts ep) = Completed"
  then show "signalAborted i (snd (runLoop i ts ep))" by (rule runLoop_Completed)
next
  assume a: "\<not> signalAborted i ep \<and> list_all undisturbed ts"
  with runLoop_undisturbed [of i ep ts]
  show "fst (runLoop i ts ep) = Ticking"
    and "passesStarted (snd (runLoop i ts ep)) = passesStarted ep + length ts"
    by simp_all
next
  assume "\<not> signalAborted i ep \<and> \<not> abortedWhileFetching t \<and> listOwnershipResult t = Inl err"
  then show "runLoop i (t # ts) ep = runLoop i ts (noted (LogLoopError err) (noted ListOwnership ep))"
    by (simp add: tickBody_listOwnership_throws)
next
  assume "\<not> signalAborted i ep \<and> \<not> abortedWhileFetching t \<and> listOwnershipResult t = Inr os \<and>
    getPartitionIdsResult t = Inl err"
  then show "runLoop i (t # ts) ep =
        runLoop i ts (noted (LogLoopError err) (noted GetPartitionIds (noted ListOwnership ep)))"
    by (simp add: tickBody_getPartitionIds_throws)
next
  assume "\<not> signalAborted i ep \<and> undisturbed t \<and> listOwnershipResult t = Inr os \<and>
    getPartitionIdsResult t = Inr ids \<and>
    balanceAndClaim t (ownershipMapOf os) ids (noted GetPartitionIds (noted ListOwnership ep)) =
      (Inr (), ep3) \<and>
    delayResult t = Inl err"
  then show "runLoop i (t # ts) ep =
        runLoop i ts (noted (LogLoopError err) (noted (Delay 10000) (noted LogPausing ep3)))"
    by (simp add: tickBody_delay_throws)
next
  show "EventProcessor_claimOwnership (env\<lparr>claimOwnershipResult := Inl err\<rparr>) m pid ep =
     noted (LogClaimFailed pid)
       (noted (ClaimOwnership (createPartitionOwnershipRequest ep m pid))
          (noted (LogAttemptClaim pid) ep))"
    by (rule claimOwnership_throws)
next
  show "fst (balanceAndClaim (t\<lparr>loadBalanceResult := Inr target\<rparr>) m ids ep) = Inr ()"
    by (rule balanceAndClaim_no_throw)
qed

lemma startedProcessor_signals: "signals startedProcessor = [False]"
  by (simp add: startedProcessor_def EventProcessor_start_def latestProcessor_def
      newEventProcessor_def Let_def noted_def)

lemma startedProcessor_running: "\<not> signalAborted 0 startedProcessor"
  by (simp add: signalAborted_def startedProcessor_signals)

text \<open>
  The theorem for claim C6 on the started processor: a loop whose signal is aborted during
  the delay of its first pass completes; three passes with a failing
  \<^verbatim>\<open>listOwnership\<close>, a failing \<^verbatim>\<open>getPartitionIds\<close> and a failing delay leave the loop
  ticking, each error logged.
\<close>

theorem runLoop_survives_faults_witness:
  "(fst (runLoop 0 [quietTick\<lparr>abortedLater := True\<rparr>, quietTick] startedProcessor) = Completed \<and>
    signalAborted 0 (snd (runLoop 0 [quietTick\<lparr>abortedLater := True\<rparr>, quietTick] startedProcessor))) \<and>
   (\<not> signalAborted 0 startedProcessor \<and>
    list_all undisturbed
      [quietTick\<lparr>listOwnershipResult := Inl storeDown\<rparr>,
       quietTick\<lparr>getPartitionIdsResult := Inl storeDown\<rparr>,
       quietTick\<lparr>delayResult := Inl storeDown\<rparr>] \<and>
    fst (runLoop 0
          [quietTick\<lparr>listOwnershipResult := Inl storeDown\<rparr>,
           quietTick\<lparr>getPartitionIdsResult := Inl storeDown\<rparr>,
           quietTick\<lparr>delayResult := Inl storeDown\<rparr>] startedProcessor) = Ticking) \<and>
   (\<not> abortedWhileFetching (quietTick\<lparr>listOwnershipResult := Inl storeDown\<rparr>) \<and>
    listOwnershipResult (quietTick\<lparr>listOwnershipResult := Inl storeDown\<rparr>) = Inl storeDown \<and>
    runLoop 0 [quietTick\<lparr>listOwnershipResult := Inl storeDown\<rparr>] startedProcessor =
      (Ticking, noted (LogLoopError storeDown) (noted ListOwnership startedProcessor))) \<and>
   (listOwnershipResult (quietTick\<lparr>getPartitionIdsResult := Inl storeDown\<rparr>) = Inr [] \<and>
    getPartitionIdsResult (quietTick\<lparr>getPartitionIdsResult := Inl storeDown\<rparr>) = Inl storeDown \<and>
    runLoop 0 [quietTick\<lparr>getPartitionIdsResult := Inl storeDown\<rparr>] startedProcessor =
      (Ticking,
       noted (LogLoopError storeDown) (noted GetPartitionIds (noted ListOwnership startedProcessor)))) \<and>
   (undisturbed (quietTick\<lparr>delayResult := Inl storeDown\<rparr>) \<and>
    balanceAndClaim (quietTick\<lparr>delayResult := Inl storeDown\<rparr>) (ownershipMapOf []) []
      (noted GetPartitionIds (noted ListOwnership startedProcessor)) =
      (Inr (), noted GetPartitionIds (noted ListOwnership startedProcessor)) \<and>
    delayResult (quietTick\<lparr>delayResult := Inl storeDown\<rparr>) = Inl storeDown \<and>
    runLoop 0 [quietTick\<lparr>delayResult := Inl storeDown\<rparr>] startedProcessor =
      (Ticking,
       noted (LogLoopError storeDown)
         (noted (Delay 10000)
            (noted LogPausing (noted GetPartitionIds (noted ListOwnership startedProcessor))))))"
proof -
  let ?abort = "[quietTick\<lparr>abortedLater := True\<rparr>, quietTick]"
  let ?tl = "quietTick\<lparr>listOwnershipResult := Inl storeDown\<rparr>"
  let ?tg = "quietTick\<lparr>getPartitionIdsResult := Inl storeDown\<rparr>"
  let ?td = "quietTick\<lparr>delayResult := Inl storeDown\<rparr>"
  let ?ep2 = "noted GetPartitionIds (noted ListOwnership startedProcessor)"
  note run = startedProcessor_running
  have fin: "fst (runLoop 0 ?abort startedProcessor) = Completed"
    using run
    by (simp add: tickBody_def quietTick_def balanceAndClaim_def fired_def abortSignal_def
        signalAborted_def noted_def startedProcessor_signals)
  have und: "list_all undisturbed [?tl, ?tg, ?td]"
    by (simp add: undisturbed_def quietTick_def)
  have hl: "\<not> abortedWhileFetching ?tl" "listOwnershipResult ?tl = Inl storeDown"
    by (simp_all add: quietTick_def)
  have hg: "\<not> abortedWhileFetching ?tg" "listOwnershipResult ?tg = Inr []"
    "getPartitionIdsResult ?tg = Inl storeDown"
    by (simp_all add: quietTick_def)
  have hd: "undisturbed ?td" "listOwnershipResult ?td = Inr []" "getPartitionIdsResult ?td = Inr []"
    "delayResult ?td = Inl storeDown"
    by (simp_all add: quietTick_def undisturbed_def)
  have bal: "balanceAndClaim ?td (ownershipMapOf []) [] ?ep2 = (Inr (), ?ep2)"
    by (simp add: balanceAndClaim_def)
  have a: "signalAborted 0 (snd (runLoop 0 ?abort startedProcessor))"
    using runLoop_survives_faults [of 0 ?abort startedProcessor] fin by blast
  have b: "fst (runLoop 0 [?tl, ?tg, ?td] startedProcessor) = Ticking"
    using runLoop_survives_faults [of 0 "[?tl, ?tg, ?td]" startedProcessor] run und by blast
  have c: "runLoop 0 [?tl] startedProcessor =
      runLoop 0 [] (noted (LogLoopError storeDown) (noted ListOwnership startedProcessor))"
    using runLoop_survives_faults [of 0 "[]" startedProcessor ?tl storeDown] run hl by blast
  have d: "runLoop 0 [?tg] startedProcessor =
      runLoop 0 [] (noted (LogLoopError storeDown) ?ep2)"
    using runLoop_survives_faults [of 0 "[]" startedProcessor ?tg storeDown "[]"] run hg by blast
  have e: "runLoop 0 [?td] startedProcessor =
      runLoop 0 [] (noted (LogLoopError storeDown) (noted (Delay 10000) (noted LogPausing ?ep2)))"
    using runLoop_survives_faults [of 0 "[]" startedProcessor ?td storeDown "[]" "[]" ?ep2] run hd bal by blast
  show ?thesis
    using run fin und hl hg hd bal a b
    by (simp only: c d e) (simp add: signalAborted_noted)
qed


subsection \<open>start and stop\<close>

lemma fieldsOf_noted: "fieldsOf (noted c ep) = fieldsOf ep"
  by (simp add: fieldsOf_def noted_def)

lemma ep_calls_noted: "ep_calls (noted c ep) = ep_calls ep @ [c]"
  by (simp add: noted_def)

lemma start_twice_fields:
  "fieldsOf (EventProcessor_start (EventProcessor_start ep)) = fieldsOf (EventProcessor_start ep)"
  by (simp add: EventProcessor_start_def Let_def fieldsOf_def noted_def)

lemma start_twice_calls:
  "ep_calls (EventProcessor_start (EventProcessor_start ep)) =
     ep_calls (EventProcessor_start ep) @ [LogAlreadyRunning]"
  by (simp add: EventProcessor_start_def Let_def noted_def)

lemma start_calls:
  "ep_calls (EventProcessor_start ep) =
     ep_calls ep @
     (if isRunning ep then [LogAlreadyRunning] else [LogStarting, RunLoop (length (signals ep))])"
  by (simp add: EventProcessor_start_def Let_def noted_def)

text \<open>
  The claim procedure is its first steps followed by \<open>claimResumed\<close>, and a pass of
  the control loop that claims a partition is its first steps followed by
  \<open>loopResumed\<close>: a loop with a claim in flight does what the loop does.
\<close>

lemma claimOwnership_split:
  "EventProcessor_claimOwnership env m pid ep =
     claimResumed env (createPartitionOwnershipRequest ep m pid)
       (noted (ClaimOwnership (createPartitionOwnershipRequest ep m pid))
          (noted (LogAttemptClaim pid) ep))"
  by (simp add: EventProcessor_claimOwnership_def claimResumed_def Let_def noted_def
      createPartitionOwnershipRequest_def split: sum.splits)

lemma tickBody_split:
  assumes "\<not> signalAborted i ep" and "undisturbed t"
    and "listOwnershipResult t = Inr os" and "getPartitionIdsResult t = Inr ids"
    and "ids \<noteq> []" and "loadBalanceResult t = Inr (Some pid)" and "pid \<noteq> []"
  shows "tickBody i t ep =
     (TickDone,
      loopResumed
        \<lparr>pendingRequest = createPartitionOwnershipRequest ep (ownershipMapOf os) pid,
         pendingClaim = claimEnv t, pendingDelay = delayResult t\<rparr>
        (noted (ClaimOwnership (createPartitionOwnershipRequest ep (ownershipMapOf os) pid))
           (noted (LogAttemptClaim pid)
              (noted (LoadBalance ids) (noted GetPartitionIds (noted ListOwnership ep))))))"
proof -
  let ?ep2 = "noted GetPartitionIds (noted ListOwnership ep)"
  have req: "createPartitionOwnershipRequest (noted (LoadBalance ids) ?ep2) (ownershipMapOf os) pid =
      createPartitionOwnershipRequest ep (ownershipMapOf os) pid"
    by (simp add: createPartitionOwnershipRequest_def noted_def)
  have bal: "balanceAndClaim t (ownershipMapOf os) ids ?ep2 =
      (Inr (), EventProcessor_claimOwnership (claimEnv t) (ownershipMapOf os) pid
                 (noted (LoadBalance ids) ?ep2))"
    using assms(5-7) by (simp add: balanceAndClaim_def)
  show ?thesis
    using assms(1-4)
    by (cases "delayResult t")
       (simp_all add: tickBody_def bal fired_False undisturbed_def signalAborted_noted
          claimOwnership_split req loopResumed_def)
qed

lemma stop_resolves: "fst (EventProcessor_stop env ep) = Inr ()"
  by (simp add: EventProcessor_stop_def Let_def)

lemma loopProgress_None: "loopProgress None ep = ep"
  by (simp add: loopProgress_def split: option.splits)

lemma loopProgress_no_loop: "loopTask ep = None \<Longrightarrow> loopProgress inFlight ep = ep"
  by (simp add: loopProgress_def)

lemmas stop_unfold = EventProcessor_stop_def Let_def noted_def abortSignal_def

lemma removeAllPumps_twice:
  "removeAllPumps reason' env' (removeAllPumps reason env pm) = removeAllPumps reason env pm"
  by (simp add: removeAllPumps_def)

text \<open>
  When no loop has a claim in flight, \<^verbatim>\<open>stop()\<close> aborts the current signal, clears
  \<^verbatim>\<open>isRunning\<close>, has every pump stopped and the index emptied and changes nothing else;
  a second such \<^verbatim>\<open>stop()\<close> leaves every field as the first did.
\<close>

lemma quiet_stop_kept:
  assumes "loopDuringRemoval env = None" and "loopDuringAwait env = None"
  shows "ep_consumerGroupName (snd (EventProcessor_stop env ep)) = ep_consumerGroupName ep"
    and "ep_eventHubName (snd (EventProcessor_stop env ep)) = ep_eventHubName ep"
    and "ep_processorOptions (snd (EventProcessor_stop env ep)) = ep_processorOptions ep"
    and "ep_id (snd (EventProcessor_stop env ep)) = ep_id ep"
    and "loopTask (snd (EventProcessor_stop env ep)) = loopTask ep"
    and "abortController (snd (EventProcessor_stop env ep)) = abortController ep"
    and "EventProcessor.more (snd (EventProcessor_stop env ep)) = EventProcessor.more ep"
    and "isRunning (snd (EventProcessor_stop env ep)) = False"
    and "signals (snd (EventProcessor_stop env ep)) =
           (case abortController ep of None \<Rightarrow> signals ep | Some i \<Rightarrow> (signals ep)[i := True])"
    and "pumpManager (snd (EventProcessor_stop env ep)) =
           removeAllPumps Shutdown (pumpStops env) (pumpManager ep)"
  using assms
  by (simp_all add: stop_unfold loopProgress_None split: option.splits sum.splits)

lemma quiet_stop_twice_fields:
  assumes "loopDuringRemoval env = None" and "loopDuringAwait env = None"
    and "loopDuringRemoval env' = None" and "loopDuringAwait env' = None"
  shows "fieldsOf (snd (EventProcessor_stop env' (snd (EventProcessor_stop env ep)))) =
     fieldsOf (snd (EventProcessor_stop env ep))"
  by (rule EventProcessor.equality)
     (simp_all add: fieldsOf_def quiet_stop_kept [OF assms(1,2)] quiet_stop_kept [OF assms(3,4)]
        removeAllPumps_twice split: option.splits)

text \<open>
  Claim C10. On a processor that was never started, \<^verbatim>\<open>stop()\<close> resolves; it calls
  \<^verbatim>\<open>removeAllPumps(Shutdown)\<close>, awaits no loop task, and changes no field of the
  processor. This holds however the promise of \<^verbatim>\<open>removeAllPumps\<close> settles.
\<close>

theorem EventProcessor_stop_before_start:
  "EventProcessor_stop env (newEventProcessor consumerGroup eventHub options uuid) =
     (Inr (),
      (newEventProcessor consumerGroup eventHub options uuid)
        \<lparr>ep_calls :=
           [LogStopping, RemoveAllPumps Shutdown] @
           (case removeAllPumpsResult env of Inl err \<Rightarrow> [LogStopError err] | Inr u \<Rightarrow> []) @
           [LogStopped]\<rparr>)"
  by (simp add: stop_unfold loopProgress_def newEventProcessor_def newPumpManager_def
      removeAllPumps_def split: sum.splits)

text \<open>The started processor, and its \<^verbatim>\<open>stop()\<close> while the loop awaits \<^verbatim>\<open>claimOwnership\<close>.\<close>

lemma startedProcessor_eq:
  "startedProcessor =
     \<lparr>ep_consumerGroupName = ''cg'', ep_eventHubName = ''hub'',
      ep_processorOptions = emptyOptions\<lparr>initialEventPosition := Some Latest\<rparr>,
      pumpManager = newPumpManager ''me'' (emptyOptions\<lparr>initialEventPosition := Some Latest\<rparr>),
      ep_id = ''me'', isRunning = True, loopTask = Some 0, abortController = Some 0,
      signals = [False], ep_calls = [LogStarting, RunLoop 0]\<rparr>"
  by (simp add: startedProcessor_def EventProcessor_start_def latestProcessor_def
      newEventProcessor_def Let_def noted_def)


lemmas midClaim_defs = midClaim_def requestForOne_def claimOfOneInFlight_def claimingOne_def
  stopMidClaim_def quietProcessorStop_def quietTick_def quietClaim_def quietPump_def quietStop_def
  abortError_def startedProcessor_eq createPartitionOwnershipRequest_def ownershipMapOf_def
  newPumpManager_def emptyOptions_def

lemmas stop_run_defs = EventProcessor_stop_def loopProgress_def loopResumed_def claimResumed_def
  removeAllPumps_def createPump_def eventPositionFor_def startPosition_def newPartitionPump_def
  PartitionPump_start_def receiveEvents_def PartitionPump_stop_def called_def noted_def
  abortSignal_def Let_def

lemma midClaim_is_reached:
  "tickBody 0 claimingOne startedProcessor = (TickDone, loopResumed claimOfOneInFlight midClaim)"
proof -
  have run: "\<not> signalAborted 0 startedProcessor"
    by (simp add: signalAborted_def startedProcessor_eq)
  have "tickBody 0 claimingOne startedProcessor =
     (TickDone,
      loopResumed
        \<lparr>pendingRequest = createPartitionOwnershipRequest startedProcessor (ownershipMapOf []) ''1'',
         pendingClaim = claimEnv claimingOne, pendingDelay = delayResult claimingOne\<rparr>
        (noted (ClaimOwnership (createPartitionOwnershipRequest startedProcessor (ownershipMapOf []) ''1''))
           (noted (LogAttemptClaim ''1'')
              (noted (LoadBalance [''1''])
                 (noted GetPartitionIds (noted ListOwnership startedProcessor))))))"
    by (rule tickBody_split [OF run])
       (simp_all add: undisturbed_def claimingOne_def quietTick_def)
  then show ?thesis
    by (simp only: midClaim_def requestForOne_def claimOfOneInFlight_def)
qed

lemma stopped_mid_claim:
  "EventProcessor_stop stopMidClaim midClaim =
     (Inr (),
      midClaim
        \<lparr>isRunning := False, signals := [True],
         pumpManager :=
           (pumpManager midClaim)
             \<lparr>pumps :=
                [(''1'',
                  \<lparr>partitionContext =
                     \<lparr>pc_consumerGroupName = ''cg'', pc_eventHubName = ''hub'', pc_partitionId = ''1''\<rparr>,
                   partitionProcessor = \<lparr>hasInitialize = False, hasClose = True\<rparr>,
                   processorOptions = emptyOptions\<lparr>initialEventPosition := Some Latest\<rparr>,
                   receiver = Some Latest, isReceiving = True, aborted = False,
                   calls = [CreateConsumer ''cg'' ''1'' Latest 0]\<rparr>)]\<rparr>,
         ep_calls := ep_calls midClaim @
           [LogStopping, AbortCall 0, RemoveAllPumps Shutdown, AwaitLoopTask 0,
            LogClaimed ''1'', LogCallingFactory ''1'',
            Factory \<lparr>pc_consumerGroupName = ''cg'', pc_eventHubName = ''hub'', pc_partitionId = ''1''\<rparr>,
            CreatePump \<lparr>pc_consumerGroupName = ''cg'', pc_eventHubName = ''hub'', pc_partitionId = ''1''\<rparr>
              Latest,
            LogPumpCreated, LogPausing, Delay 10000, LogLoopError abortError, LogStopped]\<rparr>)"
  by (simp add: midClaim_defs stop_run_defs)

text \<open>
  Claim C8 says that \<^verbatim>\<open>stop()\<close> removes all pumps and that a second \<^verbatim>\<open>stop()\<close> adds
  nothing. Here \<^verbatim>\<open>stop()\<close> is called while the loop, in its first pass, awaits
  \<^verbatim>\<open>claimOwnership\<close> for partition "1". \<^verbatim>\<open>stop()\<close> aborts the signal, finds no pump to
  remove and awaits the loop; the loop finishes its claim, creates the pump for "1", has
  its delay rejected and ends. \<^verbatim>\<open>stop()\<close> resolves with \<^verbatim>\<open>isRunning\<close> false and the
  pump for "1" receiving. A second \<^verbatim>\<open>stop()\<close> then stops that pump with
  \<^verbatim>\<open>close(Shutdown)\<close> and empties the index: it changes the processor.
\<close>

theorem stop_during_claim_leaves_a_pump:
  "tickBody 0 claimingOne startedProcessor = (TickDone, loopResumed claimOfOneInFlight midClaim) \<and>
   fst (EventProcessor_stop stopMidClaim midClaim) = Inr () \<and>
   isRunning (snd (EventProcessor_stop stopMidClaim midClaim)) = False \<and>
   signals (snd (EventProcessor_stop stopMidClaim midClaim)) = [True] \<and>
   ep_calls (snd (EventProcessor_stop stopMidClaim midClaim)) =
     ep_calls midClaim @
     [LogStopping, AbortCall 0, RemoveAllPumps Shutdown, AwaitLoopTask 0,
      LogClaimed ''1'', LogCallingFactory ''1'',
      Factory \<lparr>pc_consumerGroupName = ''cg'', pc_eventHubName = ''hub'', pc_partitionId = ''1''\<rparr>,
      CreatePump \<lparr>pc_consumerGroupName = ''cg'', pc_eventHubName = ''hub'', pc_partitionId = ''1''\<rparr>
        Latest,
      LogPumpCreated, LogPausing, Delay 10000, LogLoopError abortError, LogStopped] \<and>
   map (\<lambda>(k, p). (k, isReceiving p, calls p))
     (pumps (pumpManager (snd (EventProcessor_stop stopMidClaim midClaim)))) =
     [(''1'', True, [CreateConsumer ''cg'' ''1'' Latest 0])] \<and>
   removed (pumpManager (snd (EventProcessor_stop stopMidClaim midClaim))) = [] \<and>
   pumps (pumpManager
     (snd (EventProcessor_stop quietProcessorStop
        (snd (EventProcessor_stop stopMidClaim midClaim))))) = [] \<and>
   map (\<lambda>(k, p). (k, isReceiving p, calls p))
     (removed (pumpManager
        (snd (EventProcessor_stop quietProcessorStop
           (snd (EventProcessor_stop stopMidClaim midClaim)))))) =
     [(''1'', False, [CreateConsumer ''cg'' ''1'' Latest 0, ReceiverClose, Abort, Close Shutdown])] \<and>
   fieldsOf (snd (EventProcessor_stop quietProcessorStop
               (snd (EventProcessor_stop stopMidClaim midClaim)))) \<noteq>
     fieldsOf (snd (EventProcessor_stop stopMidClaim midClaim))"
proof -
  have second: "pumpManager (snd (EventProcessor_stop quietProcessorStop
                  (snd (EventProcessor_stop stopMidClaim midClaim)))) =
      removeAllPumps Shutdown (\<lambda>k. quietStop)
        (pumpManager (snd (EventProcessor_stop stopMidClaim midClaim)))"
    using quiet_stop_kept(10) [of quietProcessorStop "snd (EventProcessor_stop stopMidClaim midClaim)"]
    by (simp add: quietProcessorStop_def)
  have pm1: "pumps (pumpManager (snd (EventProcessor_stop stopMidClaim midClaim))) \<noteq> []"
    by (simp add: stopped_mid_claim)
  have pm2: "pumps (pumpManager (snd (EventProcessor_stop quietProcessorStop
                  (snd (EventProcessor_stop stopMidClaim midClaim))))) = []"
    by (simp add: second removeAllPumps_def)
  have differ: "fieldsOf (snd (EventProcessor_stop quietProcessorStop
               (snd (EventProcessor_stop stopMidClaim midClaim)))) \<noteq>
     fieldsOf (snd (EventProcessor_stop stopMidClaim midClaim))"
  proof
    assume "fieldsOf (snd (EventProcessor_stop quietProcessorStop
               (snd (EventProcessor_stop stopMidClaim midClaim)))) =
     fieldsOf (snd (EventProcessor_stop stopMidClaim midClaim))"
    then have "pumpManager (fieldsOf (snd (EventProcessor_stop quietProcessorStop
               (snd (EventProcessor_stop stopMidClaim midClaim))))) =
     pumpManager (fieldsOf (snd (EventProcessor_stop stopMidClaim midClaim)))"
      by simp
    then have "pumps (pumpManager (snd (EventProcessor_stop quietProcessorStop
               (snd (EventProcessor_stop stopMidClaim midClaim))))) =
     pumps (pumpManager (snd (EventProcessor_stop stopMidClaim midClaim)))"
      by (simp add: fieldsOf_def)
    with pm1 pm2 show False by simp
  qed
  have removed2: "map (\<lambda>(k, p). (k, isReceiving p, calls p))
     (removed (pumpManager
        (snd (EventProcessor_stop quietProcessorStop
           (snd (EventProcessor_stop stopMidClaim midClaim)))))) =
     [(''1'', False, [CreateConsumer ''cg'' ''1'' Latest 0, ReceiverClose, Abort, Close Shutdown])]"
    apply (subst second)
    apply (simp only: stopped_mid_claim snd_conv)
    apply (simp add: removeAllPumps_def PartitionPump_stop_def quietStop_def
          called_def midClaim_def startedProcessor_eq newPumpManager_def noted_def)
    done
  have c2: "fst (EventProcessor_stop stopMidClaim midClaim) = Inr ()"
    by (rule stop_resolves)
  have c3: "isRunning (snd (EventProcessor_stop stopMidClaim midClaim)) = False"
    and c4: "signals (snd (EventProcessor_stop stopMidClaim midClaim)) = [True]"
    and c5: "ep_calls (snd (EventProcessor_stop stopMidClaim midClaim)) =
     ep_calls midClaim @
     [LogStopping, AbortCall 0, RemoveAllPumps Shutdown, AwaitLoopTask 0,
      LogClaimed ''1'', LogCallingFactory ''1'',
      Factory \<lparr>pc_consumerGroupName = ''cg'', pc_eventHubName = ''hub'', pc_partitionId = ''1''\<rparr>,
      CreatePump \<lparr>pc_consumerGroupName = ''cg'', pc_eventHubName = ''hub'', pc_partitionId = ''1''\<rparr>
        Latest,
      LogPumpCreated, LogPausing, Delay 10000, LogLoopError abortError, LogStopped]"
    and c6: "map (\<lambda>(k, p). (k, isReceiving p, calls p))
     (pumps (pumpManager (snd (EventProcessor_stop stopMidClaim midClaim)))) =
     [(''1'', True, [CreateConsumer ''cg'' ''1'' Latest 0])]"
    by (simp_all only: stopped_mid_claim snd_conv) simp_all
  have c7: "removed (pumpManager (snd (EventProcessor_stop stopMidClaim midClaim))) = []"
    by (simp only: stopped_mid_claim snd_conv)
       (simp add: midClaim_def startedProcessor_eq newPumpManager_def noted_def)
  show ?thesis
    by (intro conjI)
       (rule midClaim_is_reached, rule c2, rule c3, rule c4, rule c5, rule c6, rule c7,
        rule pm2, rule removed2, rule differ)
qed

end
